theory Spec2Isabelle
  imports Complex_Main "HOL-Library.Word" "HOL-Library.List_Lexorder"
begin

section \<open>Machine types, errors and external collaborators\<close>

text \<open>
  Bytes are the elements of \<^verbatim>\<open>std::vector<char>\<close>; \<^verbatim>\<open>std::size_t\<close> and
  \<^verbatim>\<open>uint64_t\<close> are 64-bit words whose arithmetic wraps.  Lengths of vectors are
  natural numbers (the length of the list that models the vector).
\<close>

type_synonym byte = "8 word"
type_synonym bytes = "byte list"
type_synonym size_t = "64 word"

text \<open>
  Every \<^verbatim>\<open>throw std::runtime_error\<close> of the sources is a constructor; so are a failed
  \<^verbatim>\<open>assert\<close> and the reads and iterations that C++ leaves undefined.
\<close>

datatype error =
    InvalidChunkType
  | InvalidChunkData
  | InvalidSerializedSparseChunk
  | CalledNextAfterCompleted
  | QueryBufferNotEmpty
  | QueryBufferNotSet
  | ReservationFailure
  | AssertionFailed
  | OutOfBounds
  | DivisionByZero

subsection \<open>Schema\<close>

text \<open>
  Modelled from the spec: the class \<^verbatim>\<open>Schema\<close> and \<^verbatim>\<open>DimInfo\<close> are declared outside the
  sources at hand.  A schema is the ordered list of its dimensions (name, identifier,
  scalar type, byte size) and \<^verbatim>\<open>pointSize\<close> is the sum of the sizes.
\<close>

datatype dim_id = DimUnknown | DimX | DimY | DimZ | DimOther nat

record DimInfo =
  dim_name :: string
  dim_id :: dim_id
  dim_type :: string
  dim_size :: nat

type_synonym Schema = "DimInfo list"

definition pointSize :: "Schema \<Rightarrow> nat" where
  "pointSize s = sum_list (map dim_size s)"

text \<open>\<^verbatim>\<open>sizeof(std::size_t)\<close> and \<^verbatim>\<open>sizeof(uint64_t)\<close>.\<close>

definition sizeof_size_t :: nat where
  "sizeof_size_t = 8"

subsection \<open>Compression and point decoding\<close>

text \<open>
  The codec (\<^verbatim>\<open>Compression::compress\<close>, \<^verbatim>\<open>Compression::decompress\<close>) and the typed
  readers of the point table (\<^verbatim>\<open>getFieldAs<double>\<close> on X and Y, \<^verbatim>\<open>Point::exists\<close>) are
  external to the sources: they are parameters of the model.  \<open>compress d s\<close> stands for
  \<^verbatim>\<open>compress(d.data(), d.size(), s)\<close> and \<open>decompress d s n\<close> is the buffer obtained from
  \<open>d\<close> under schema \<open>s\<close> with expected size \<open>n\<close>.
\<close>

record 'pt Env =
  compress :: "bytes \<Rightarrow> Schema \<Rightarrow> bytes"
  decompress :: "bytes \<Rightarrow> Schema \<Rightarrow> nat \<Rightarrow> bytes"
  getXY :: "Schema \<Rightarrow> bytes \<Rightarrow> 'pt"
  pointExists :: "'pt \<Rightarrow> bool"

section \<open>chunk.cpp\<close>

subsection \<open>Anonymous namespace\<close>

text \<open>
  \<^verbatim>\<open>getThreshold\<close>: both operands of the division are \<^verbatim>\<open>std::size_t\<close>, so the quotient
  is the unsigned integer quotient; the \<^verbatim>\<open>return\<close> converts that integer to
  \<^verbatim>\<open>double\<close> (exactly, for the quotients below \<open>2 ^ 53\<close>).  A zero divisor is undefined
  in C++.
\<close>

definition getThreshold :: "Schema \<Rightarrow> error + real" where
  "getThreshold schema =
     (let ps = (word_of_nat (pointSize schema) :: size_t);
          divisor = ps + word_of_nat sizeof_size_t
      in if divisor = 0 then Inl DivisionByZero
         else Inr (real (unat (ps div divisor))))"

definition makeSparse :: "Schema \<Rightarrow> Schema" where
  "makeSparse schema =
     \<lparr>dim_name = ''EntryId'', dim_id = DimUnknown, dim_type = ''unsigned'', dim_size = 8\<rparr>
       # schema"

text \<open>
  Modelled from the spec: the enumeration \<^verbatim>\<open>ChunkType\<close> is declared in the absent header;
  the marker byte values are \<open>Sparse = 0x00\<close> and \<open>Contiguous = 0x01\<close>.
\<close>

datatype ChunkType = Sparse | Contiguous

fun markerOf :: "ChunkType \<Rightarrow> byte" where
  "markerOf Sparse = 0"
| "markerOf Contiguous = 1"

text \<open>
  \<^verbatim>\<open>getChunkType\<close> takes the vector by reference: the result pairs the vector as the
  call leaves it with the outcome.  The marker is popped before it is inspected, so it is
  gone from the vector also when the type is rejected.
\<close>

definition getChunkType :: "bytes \<Rightarrow> bytes \<times> (error + ChunkType)" where
  "getChunkType data =
     (if data \<noteq> [] then
        (let marker = last data; data' = butlast data
         in if marker = markerOf Sparse then (data', Inr Sparse)
            else if marker = markerOf Contiguous then (data', Inr Contiguous)
            else (data', Inl InvalidChunkType))
      else (data, Inl InvalidChunkData))"

subsection \<open>Little-endian 64-bit fields (\<^verbatim>\<open>memcpy\<close> of a \<^verbatim>\<open>uint64_t\<close>)\<close>

fun le_bytes :: "nat \<Rightarrow> nat \<Rightarrow> bytes" where
  "le_bytes 0 n = []"
| "le_bytes (Suc k) n = word_of_nat (n mod 256) # le_bytes k (n div 256)"

fun le_value :: "bytes \<Rightarrow> nat" where
  "le_value [] = 0"
| "le_value (b # bs) = unat b + 256 * le_value bs"

definition store_u64 :: "size_t \<Rightarrow> bytes" where
  "store_u64 w = le_bytes 8 (unat w)"

definition load_u64 :: "bytes \<Rightarrow> size_t" where
  "load_u64 bs = word_of_nat (le_value (take 8 bs))"

subsection \<open>\<^verbatim>\<open>std::map\<close> with \<^verbatim>\<open>std::size_t\<close> keys\<close>

text \<open>
  The ordered map is the list of its entries in ascending key order; an iterator is a
  position in that list, \<^verbatim>\<open>end()\<close> being the length.
\<close>

type_synonym 'v std_map = "(size_t \<times> 'v) list"

fun emplace :: "size_t \<Rightarrow> 'v \<Rightarrow> 'v std_map \<Rightarrow> 'v std_map" where
  "emplace k v [] = [(k, v)]"
| "emplace k v ((k', v') # es) =
     (if k < k' then (k, v) # (k', v') # es
      else if k = k' then (k', v') # es
      else (k', v') # emplace k v es)"

definition map_find :: "size_t \<Rightarrow> 'v std_map \<Rightarrow> 'v option" where
  "map_find k es = map_of es k"

definition map_lower_bound :: "size_t \<Rightarrow> 'v std_map \<Rightarrow> nat" where
  "map_lower_bound k es = length (takeWhile (\<lambda>e. fst e < k) es)"

definition map_upper_bound :: "size_t \<Rightarrow> 'v std_map \<Rightarrow> nat" where
  "map_upper_bound k es = length (takeWhile (\<lambda>e. fst e \<le> k) es)"

definition wf_map :: "'v std_map \<Rightarrow> bool" where
  "wf_map es = (sorted (map fst es) \<and> distinct (map fst es))"

subsection \<open>Blob store\<close>

text \<open>
  Modelled from the spec: \<^verbatim>\<open>Source\<close> is an abstract store with put and get by string
  name.  \<^verbatim>\<open>std::to_string\<close> of an unsigned integer is its decimal representation.
\<close>

type_synonym Source = "string \<rightharpoonup> bytes"

definition put :: "Source \<Rightarrow> string \<Rightarrow> bytes \<Rightarrow> Source" where
  "put source name data = source(name \<mapsto> data)"

definition digit_char :: "nat \<Rightarrow> char" where
  "digit_char d = char_of (48 + d)"

fun to_string_nat :: "nat \<Rightarrow> string" where
  "to_string_nat n =
     (if n < 10 then [digit_char n]
      else to_string_nat (n div 10) @ [digit_char (n mod 10)])"

definition to_string :: "size_t \<Rightarrow> string" where
  "to_string w = to_string_nat (unat w)"

subsection \<open>Entries and the two chunk layouts\<close>

text \<open>
  An \<^verbatim>\<open>Entry\<close> pairs the atomic point slot (null or a point) with a pointer to its raw
  bytes.  A \<^verbatim>\<open>SparseEntry\<close> owns the bytes its entry points to; in a contiguous chunk
  entry \<open>i\<close> points at offset \<open>i * pointSize\<close> of the one buffer \<open>c_data\<close>.
\<close>

record 'pt SparseEntry =
  se_data :: bytes
  se_point :: "'pt option"

record 'pt SparseChunkData =
  s_schema :: Schema
  s_id :: size_t
  s_maxPoints :: size_t
  s_entries :: "'pt SparseEntry std_map"

record 'pt ContiguousChunkData =
  c_schema :: Schema
  c_id :: size_t
  c_maxPoints :: size_t
  c_entries :: "'pt option list"
  c_data :: bytes

datatype 'pt ChunkData =
    SparseCD "'pt SparseChunkData"
  | ContiguousCD "'pt ContiguousChunkData"

fun ChunkData_id :: "'pt ChunkData \<Rightarrow> size_t" where
  "ChunkData_id (SparseCD c) = s_id c"
| "ChunkData_id (ContiguousCD c) = c_id c"

fun ChunkData_maxPoints :: "'pt ChunkData \<Rightarrow> size_t" where
  "ChunkData_maxPoints (SparseCD c) = s_maxPoints c"
| "ChunkData_maxPoints (ContiguousCD c) = c_maxPoints c"

definition endId :: "'pt ChunkData \<Rightarrow> size_t" where
  "endId cd = ChunkData_id cd + ChunkData_maxPoints cd"

definition ChunkData_normalize :: "'pt ChunkData \<Rightarrow> size_t \<Rightarrow> error + size_t" where
  "ChunkData_normalize cd rawIndex =
     (if \<not> rawIndex \<ge> ChunkData_id cd then Inl AssertionFailed
      else if \<not> rawIndex < ChunkData_id cd + ChunkData_maxPoints cd then Inl AssertionFailed
      else Inr (rawIndex - ChunkData_id cd))"

subsection \<open>SparseChunkData\<close>

text \<open>\<^verbatim>\<open>SparseEntry(schema)\<close>: a zeroed buffer of \<open>pointSize\<close> bytes and an empty slot.\<close>

definition SparseEntry_new :: "Schema \<Rightarrow> 'pt SparseEntry" where
  "SparseEntry_new schema = \<lparr>se_data = replicate (pointSize schema) 0, se_point = None\<rparr>"

text \<open>
  \<^verbatim>\<open>SparseEntry(schema, pos)\<close>: \<open>rest\<close> is the buffer from \<open>pos\<close> on; the entry copies
  \<open>pointSize\<close> bytes and holds the point that the single-point table over \<open>pos\<close> yields.
\<close>

definition SparseEntry_at :: "'pt Env \<Rightarrow> Schema \<Rightarrow> bytes \<Rightarrow> 'pt SparseEntry" where
  "SparseEntry_at env schema rest =
     \<lparr>se_data = take (pointSize schema) rest,
      se_point = Some (getXY env schema (take (pointSize schema) rest))\<rparr>"

definition SparseChunkData_empty :: "Schema \<Rightarrow> size_t \<Rightarrow> size_t \<Rightarrow> 'pt SparseChunkData" where
  "SparseChunkData_empty schema ident maxPoints =
     \<lparr>s_schema = schema, s_id = ident, s_maxPoints = maxPoints, s_entries = []\<rparr>"

definition pushNumPoints :: "bytes \<Rightarrow> size_t \<Rightarrow> bytes" where
  "pushNumPoints data numPoints = data @ store_u64 numPoints"

definition popNumPoints :: "bytes \<Rightarrow> bytes \<times> (error + size_t)" where
  "popNumPoints compressedData =
     (if length compressedData < sizeof_size_t
      then (compressedData, Inl InvalidSerializedSparseChunk)
      else (let numPointsOffset = length compressedData - sizeof_size_t
            in (take numPointsOffset compressedData,
                Inr (load_u64 (drop numPointsOffset compressedData)))))"

text \<open>
  The decoding loop of the constructor.  \<open>rest\<close> is \<open>squashed\<close> from \<open>offset\<close> on, so
  \<open>offset < squashed->size()\<close> is \<open>rest \<noteq> []\<close>.  A trailing partial record would be read
  past the end of the buffer.  \<^verbatim>\<open>emplace\<close> keeps the first entry of a key.
\<close>

function SparseChunkData_decode ::
  "'pt Env \<Rightarrow> Schema \<Rightarrow> bytes \<Rightarrow> 'pt SparseEntry std_map \<Rightarrow> error + 'pt SparseEntry std_map"
where
  "SparseChunkData_decode env schema rest m =
     (if rest = [] then Inr m
      else if length rest < pointSize (makeSparse schema) then Inl OutOfBounds
      else SparseChunkData_decode env schema (drop (pointSize (makeSparse schema)) rest)
             (emplace (load_u64 rest) (SparseEntry_at env schema (drop sizeof_size_t rest)) m))"
  by pat_completeness auto
termination
  by (relation "measure (\<lambda>(env, schema, rest, m). length rest)")
     (auto simp: pointSize_def makeSparse_def)

declare SparseChunkData_decode.simps [simp del]

definition SparseChunkData_from ::
  "'pt Env \<Rightarrow> Schema \<Rightarrow> size_t \<Rightarrow> size_t \<Rightarrow> bytes \<Rightarrow> error + 'pt SparseChunkData"
where
  "SparseChunkData_from env schema ident maxPoints compressedData =
     (case popNumPoints compressedData of
        (_, Inl e) \<Rightarrow> Inl e
      | (compressedData', Inr numPoints) \<Rightarrow>
          (let sparse = makeSparse schema;
               sparsePointSize = pointSize sparse;
               squashed = decompress env compressedData' sparse
                            (unat (numPoints * word_of_nat sparsePointSize))
           in case SparseChunkData_decode env schema squashed [] of
                Inl e \<Rightarrow> Inl e
              | Inr es \<Rightarrow>
                  Inr \<lparr>s_schema = schema, s_id = ident, s_maxPoints = maxPoints,
                       s_entries = es\<rparr>))"

text \<open>\<^verbatim>\<open>getEntry\<close>: find or insert; the chunk is returned as the call leaves it.\<close>

definition SparseChunkData_getEntry ::
  "'pt SparseChunkData \<Rightarrow> size_t \<Rightarrow> 'pt SparseChunkData \<times> 'pt SparseEntry"
where
  "SparseChunkData_getEntry c rawIndex =
     (case map_find rawIndex (s_entries c) of
        Some e \<Rightarrow> (c, e)
      | None \<Rightarrow>
          (c\<lparr>s_entries := emplace rawIndex (SparseEntry_new (s_schema c)) (s_entries c)\<rparr>,
           SparseEntry_new (s_schema c)))"

text \<open>
  \<^verbatim>\<open>squash\<close>: the iterators are positions; the loop runs from \<open>beginIt\<close> while
  \<open>it \<noteq> endIt\<close>, so with \<open>endIt\<close> before \<open>beginIt\<close> it would run past \<^verbatim>\<open>end()\<close>.
  \<open>end - 1\<close> wraps for \<open>end = 0\<close>.  Every \<^verbatim>\<open>SparseEntry\<close> is built with \<open>pointSize\<close>
  bytes of data, of which \<open>nativePointSize\<close> are copied.
\<close>

definition squash ::
  "'pt SparseChunkData \<Rightarrow> Schema \<Rightarrow> size_t \<Rightarrow> size_t \<Rightarrow> error + bytes"
where
  "squash c sparse begin end =
     (let nativePointSize = pointSize (s_schema c);
          sparsePointSize = pointSize sparse
      in if nativePointSize + sizeof_size_t \<noteq> sparsePointSize then Inl AssertionFailed
         else
           (let beginIt = map_lower_bound begin (s_entries c);
                endIt = map_upper_bound (end - 1) (s_entries c)
            in if endIt < beginIt then Inl OutOfBounds
               else Inr (concat (map (\<lambda>(ident, e). store_u64 ident @ take nativePointSize (se_data e))
                                   (take (endIt - beginIt) (drop beginIt (s_entries c)))))))"

definition SparseChunkData_write ::
  "'pt Env \<Rightarrow> 'pt SparseChunkData \<Rightarrow> Source \<Rightarrow> size_t \<Rightarrow> size_t \<Rightarrow> error + Source"
where
  "SparseChunkData_write env c source begin end =
     (let sparse = makeSparse (s_schema c)
      in case squash c sparse begin end of
           Inl e \<Rightarrow> Inl e
         | Inr data \<Rightarrow>
             (let compressed = compress env data sparse;
                  compressed1 = pushNumPoints compressed (word_of_nat (length (s_entries c)));
                  compressed2 = compressed1 @ [markerOf Sparse]
              in Inr (put source (to_string begin) compressed2)))"

subsection \<open>ContiguousChunkData\<close>

text \<open>
  Construction from compressed bytes: slot \<open>i\<close> is read at \<open>i * pointSize\<close>; a buffer
  shorter than \<open>maxPoints * pointSize\<close> would be read past its end.
\<close>

definition ContiguousChunkData_from ::
  "'pt Env \<Rightarrow> Schema \<Rightarrow> size_t \<Rightarrow> size_t \<Rightarrow> bytes \<Rightarrow> error + 'pt ContiguousChunkData"
where
  "ContiguousChunkData_from env schema ident maxPoints compressedData =
     (let ps = pointSize schema;
          data = decompress env compressedData schema (unat (maxPoints * word_of_nat ps))
      in if length data < unat maxPoints * ps then Inl OutOfBounds
         else Inr \<lparr>c_schema = schema, c_id = ident, c_maxPoints = maxPoints,
                   c_entries =
                     map (\<lambda>i. let p = getXY env schema (take ps (drop (i * ps) data))
                               in if pointExists env p then Some p else None)
                       [0 ..< unat maxPoints],
                   c_data = data\<rparr>)"

definition ContiguousChunkData_write ::
  "'pt Env \<Rightarrow> 'pt ContiguousChunkData \<Rightarrow> Source \<Rightarrow> size_t \<Rightarrow> size_t \<Rightarrow> error + Source"
where
  "ContiguousChunkData_write env c source begin end =
     (case ChunkData_normalize (ContiguousCD c) begin of
        Inl e \<Rightarrow> Inl e
      | Inr normalized \<Rightarrow>
          (let ps = pointSize (c_schema c);
               off = unat (normalized * word_of_nat ps);
               len = unat ((end - begin) * word_of_nat ps)
           in if length (c_data c) < off + len then Inl OutOfBounds
              else (let compressed = compress env (take len (drop off (c_data c))) (c_schema c)
                    in Inr (put source (to_string begin) (compressed @ [markerOf Contiguous])))))"

subsection \<open>ChunkDataFactory and the virtual calls\<close>

definition ChunkDataFactory_create ::
  "'pt Env \<Rightarrow> Schema \<Rightarrow> size_t \<Rightarrow> size_t \<Rightarrow> bytes \<Rightarrow> error + 'pt ChunkData"
where
  "ChunkDataFactory_create env schema ident maxPoints data =
     (case getChunkType data of
        (_, Inl e) \<Rightarrow> Inl e
      | (data', Inr Sparse) \<Rightarrow>
          (case SparseChunkData_from env schema ident maxPoints data' of
             Inl e \<Rightarrow> Inl e | Inr c \<Rightarrow> Inr (SparseCD c))
      | (data', Inr Contiguous) \<Rightarrow>
          (case ContiguousChunkData_from env schema ident maxPoints data' of
             Inl e \<Rightarrow> Inl e | Inr c \<Rightarrow> Inr (ContiguousCD c)))"

fun ChunkData_write ::
  "'pt Env \<Rightarrow> 'pt ChunkData \<Rightarrow> Source \<Rightarrow> size_t \<Rightarrow> size_t \<Rightarrow> error + Source"
where
  "ChunkData_write env (SparseCD c) source begin end = SparseChunkData_write env c source begin end"
| "ChunkData_write env (ContiguousCD c) source begin end =
     ContiguousChunkData_write env c source begin end"

definition ChunkData_save :: "'pt Env \<Rightarrow> 'pt ChunkData \<Rightarrow> Source \<Rightarrow> error + Source" where
  "ChunkData_save env cd source = ChunkData_write env cd source (ChunkData_id cd) (endId cd)"

subsection \<open>finalize\<close>

text \<open>
  The \<^verbatim>\<open>for\<close> loop of \<^verbatim>\<open>ChunkData::finalize\<close>, over the virtual \<^verbatim>\<open>write\<close>.  With
  \<open>chunkPoints = 0\<close> it does not terminate: the loop is a partial function, \<open>None\<close> being
  no result.  The identifiers are those pushed onto \<open>ids\<close>, in order.
\<close>

partial_function (option) finalize_loop ::
  "(Source \<Rightarrow> size_t \<Rightarrow> size_t \<Rightarrow> error + Source) \<Rightarrow> size_t \<Rightarrow> size_t \<Rightarrow>
   size_t \<Rightarrow> Source \<Rightarrow> size_t list \<Rightarrow> (error + Source \<times> size_t list) option"
where
  "finalize_loop write end_id chunkPoints ident source ids =
     (if ident < end_id then
        (case write source ident (ident + chunkPoints) of
           Inl e \<Rightarrow> Some (Inl e)
         | Inr source' \<Rightarrow>
             finalize_loop write end_id chunkPoints (ident + chunkPoints) source' (ids @ [ident]))
      else Some (Inr (source, ids)))"

declare finalize_loop.simps [code]

definition ChunkData_finalize ::
  "'pt Env \<Rightarrow> 'pt ChunkData \<Rightarrow> Source \<Rightarrow> size_t list \<Rightarrow> size_t \<Rightarrow> size_t \<Rightarrow>
   (error + Source \<times> size_t list) option"
where
  "ChunkData_finalize env cd source ids start chunkPoints =
     (case (if start > ChunkData_id cd then
              (case ChunkData_write env cd source (ChunkData_id cd) start of
                 Inl e \<Rightarrow> Inl e
               | Inr source' \<Rightarrow> Inr (source', ids @ [ChunkData_id cd]))
            else Inr (source, ids)) of
        Inl e \<Rightarrow> Some (Inl e)
      | Inr (source1, ids1) \<Rightarrow>
          finalize_loop (ChunkData_write env cd) (endId cd) chunkPoints
            (max start (ChunkData_id cd)) source1 ids1)"

record 'pt Chunk =
  m_chunkData :: "'pt ChunkData"
  m_threshold :: "error + real"

definition Chunk_from ::
  "'pt Env \<Rightarrow> Schema \<Rightarrow> size_t \<Rightarrow> size_t \<Rightarrow> bytes \<Rightarrow> error + 'pt Chunk"
where
  "Chunk_from env schema ident maxPoints data =
     (case ChunkDataFactory_create env schema ident maxPoints data of
        Inl e \<Rightarrow> Inl e
      | Inr cd \<Rightarrow> Inr \<lparr>m_chunkData = cd, m_threshold = getThreshold schema\<rparr>)"

definition Chunk_finalize ::
  "'pt Env \<Rightarrow> 'pt Chunk \<Rightarrow> Source \<Rightarrow> size_t list \<Rightarrow> size_t \<Rightarrow> size_t \<Rightarrow>
   (error + Source \<times> size_t list) option"
where
  "Chunk_finalize env chunk source ids start chunkPoints =
     ChunkData_finalize env (m_chunkData chunk) source ids start chunkPoints"

text \<open>
  For comparison with \<^verbatim>\<open>finalize\<close>: the begin identifiers of the slices
  \<open>[id, id + chunkPoints)\<close> from \<open>a\<close> up to \<open>e\<close> as unbounded numbers, the effect of
  writing a list of ranges in order, and the ranges of a \<^verbatim>\<open>finalize\<close> call: the prefix
  \<open>[m_id, start)\<close> when \<open>start > m_id\<close>, then the slices from \<open>max(start, m_id)\<close> up to
  \<open>endId\<close>.
\<close>

function slice_begins :: "nat \<Rightarrow> nat \<Rightarrow> nat \<Rightarrow> nat list" where
  "slice_begins a e cp = (if a < e \<and> 0 < cp then a # slice_begins (a + cp) e cp else [])"
  by pat_completeness auto
termination
  by (relation "measure (\<lambda>(a, e, cp). e - a)") auto

declare slice_begins.simps [simp del]

fun write_ranges ::
  "(Source \<Rightarrow> size_t \<Rightarrow> size_t \<Rightarrow> error + Source) \<Rightarrow> (size_t \<times> size_t) list \<Rightarrow> Source \<Rightarrow>
   error + Source"
where
  "write_ranges w [] source = Inr source"
| "write_ranges w ((b, e) # rs) source =
     (case w source b e of Inl err \<Rightarrow> Inl err | Inr source' \<Rightarrow> write_ranges w rs source')"

definition finalize_ranges :: "'pt ChunkData \<Rightarrow> size_t \<Rightarrow> size_t \<Rightarrow> (size_t \<times> size_t) list" where
  "finalize_ranges cd start chunkPoints =
     (if start > ChunkData_id cd then [(ChunkData_id cd, start)] else []) @
     map (\<lambda>b. (word_of_nat b, word_of_nat b + chunkPoints))
       (slice_begins (unat (max start (ChunkData_id cd))) (unat (endId cd)) (unat chunkPoints))"

subsection \<open>SparseReader\<close>

record SparseReader =
  r_id :: size_t
  r_schema :: Schema
  r_data :: "bytes std_map"

text \<open>The constructor's loop: as for \<^verbatim>\<open>SparseChunkData\<close>, the value being the point bytes.\<close>

function SparseReader_decode :: "Schema \<Rightarrow> bytes \<Rightarrow> bytes std_map \<Rightarrow> error + bytes std_map"
where
  "SparseReader_decode schema rest m =
     (if rest = [] then Inr m
      else if length rest < pointSize (makeSparse schema) then Inl OutOfBounds
      else SparseReader_decode schema (drop (pointSize (makeSparse schema)) rest)
             (emplace (load_u64 rest)
                (drop sizeof_size_t (take (pointSize (makeSparse schema)) rest)) m))"
  by pat_completeness auto
termination
  by (relation "measure (\<lambda>(schema, rest, m). length rest)")
     (auto simp: pointSize_def makeSparse_def)

declare SparseReader_decode.simps [simp del]

definition SparseReader_from ::
  "'pt Env \<Rightarrow> size_t \<Rightarrow> Schema \<Rightarrow> bytes \<Rightarrow> error + SparseReader"
where
  "SparseReader_from env ident schema data =
     (case popNumPoints data of
        (_, Inl e) \<Rightarrow> Inl e
      | (data', Inr numPoints) \<Rightarrow>
          (let sparse = makeSparse schema;
               sparsePointSize = pointSize sparse;
               squashed = decompress env data' sparse
                            (unat (numPoints * word_of_nat sparsePointSize))
           in case SparseReader_decode schema squashed [] of
                Inl e \<Rightarrow> Inl e
              | Inr m \<Rightarrow> Inr \<lparr>r_id = ident, r_schema = schema, r_data = m\<rparr>))"

text \<open>\<^verbatim>\<open>getData\<close>: the null pointer is \<open>None\<close>, a pointer to a record's bytes is the bytes.\<close>

definition SparseReader_getData :: "SparseReader \<Rightarrow> size_t \<Rightarrow> bytes option" where
  "SparseReader_getData r rawIndex =
     (case map_find rawIndex (r_data r) of
        Some point \<Rightarrow> Some point
      | None \<Rightarrow> None)"

text \<open>
  For comparison with \<open>getData\<close>: the records of the decompressed buffer in the order in
  which the constructor meets them, each with its 8-byte key and its point bytes.
  \<open>records_at_construction\<close> is that list for the vector handed to the constructor.
\<close>

function decoded_records :: "Schema \<Rightarrow> bytes \<Rightarrow> (size_t \<times> bytes) list" where
  "decoded_records schema rest =
     (if length rest < pointSize (makeSparse schema) then []
      else (load_u64 rest, drop sizeof_size_t (take (pointSize (makeSparse schema)) rest))
             # decoded_records schema (drop (pointSize (makeSparse schema)) rest))"
  by pat_completeness auto
termination
  by (relation "measure (\<lambda>(schema, rest). length rest)")
     (auto simp: pointSize_def makeSparse_def)

declare decoded_records.simps [simp del]

definition records_at_construction :: "'pt Env \<Rightarrow> Schema \<Rightarrow> bytes \<Rightarrow> (size_t \<times> bytes) list" where
  "records_at_construction env schema data =
     decoded_records schema
       (decompress env (take (length data - 8) data) (makeSparse schema)
          (unat (load_u64 (drop (length data - 8) data)
                   * word_of_nat (pointSize (makeSparse schema)))))"

section \<open>chunk-reader.cpp\<close>

text \<open>
  Points are kept abstract (type \<open>'p\<close>): their coordinates are floating-point numbers
  that the code only hands to collaborators.  \<^verbatim>\<open>Bounds\<close> is its two corners.
\<close>

record 'p Bounds =
  b_min :: 'p
  b_max :: 'p

text \<open>
  Modelled from the spec: \<^verbatim>\<open>PointInfo\<close> is declared in an absent header.  A record is
  (point, raw data, tick) and \<^verbatim>\<open>operator<\<close> compares ticks.  A \<^verbatim>\<open>PointInfo\<close> built from
  a tick alone only takes part in comparisons: it is represented by its tick.
\<close>

record 'p PointInfo =
  pi_point :: 'p
  pi_data :: bytes
  pi_tick :: nat

text \<open>
  \<^verbatim>\<open>std::sort\<close> yields an ordered permutation and leaves the order of equal ticks open;
  the model takes the stable one.  \<^verbatim>\<open>std::lower_bound\<close> and \<^verbatim>\<open>std::upper_bound\<close> yield
  positions in the ordered vector.
\<close>

definition std_sort :: "'p PointInfo list \<Rightarrow> 'p PointInfo list" where
  "std_sort xs = sort_key pi_tick xs"

definition std_lower_bound :: "'p PointInfo list \<Rightarrow> nat \<Rightarrow> nat" where
  "std_lower_bound xs tick = length (takeWhile (\<lambda>x. pi_tick x < tick) xs)"

definition std_upper_bound :: "'p PointInfo list \<Rightarrow> nat \<Rightarrow> nat" where
  "std_upper_bound xs tick = length (takeWhile (\<lambda>x. \<not> tick < pi_tick x) xs)"

text \<open>
  \<^verbatim>\<open>Metadata\<close> with its unpacker (payload bytes and point count), the typed reader of
  X, Y, Z and \<^verbatim>\<open>Tube::calcTick\<close> are external: parameters.
\<close>

record 'p Metadata =
  md_schema :: Schema
  md_boundsScaledCubic :: "'p Bounds"
  md_unpack :: "bytes \<Rightarrow> bytes \<times> nat"

record 'p ReaderEnv =
  getXYZ :: "Schema \<Rightarrow> bytes \<Rightarrow> 'p"
  calcTick :: "'p \<Rightarrow> 'p Bounds \<Rightarrow> nat \<Rightarrow> nat"

record 'p ChunkReader =
  cr_schema :: Schema
  cr_bounds :: "'p Bounds"
  cr_id :: nat
  cr_depth :: nat
  cr_data :: bytes
  cr_points :: "'p PointInfo list"

text \<open>
  The constructor: record \<open>i\<close> is read at \<open>i * pointSize\<close> of the unpacked bytes; fewer
  bytes than \<open>numPoints\<close> records would be read past the end.
\<close>

definition ChunkReader_new ::
  "'p ReaderEnv \<Rightarrow> 'p Metadata \<Rightarrow> nat \<Rightarrow> nat \<Rightarrow> bytes \<Rightarrow> error + 'p ChunkReader"
where
  "ChunkReader_new env metadata ident depth data =
     (let schema = md_schema metadata;
          bounds = md_boundsScaledCubic metadata;
          (m_data, numPoints) = md_unpack metadata data;
          ps = pointSize schema
      in if length m_data < numPoints * ps then Inl OutOfBounds
         else
           (let points =
                  map (\<lambda>i. let pos = take ps (drop (i * ps) m_data);
                                point = getXYZ env schema pos
                            in \<lparr>pi_point = point, pi_data = pos,
                                pi_tick = calcTick env point bounds depth\<rparr>)
                    [0 ..< numPoints]
            in Inr \<lparr>cr_schema = schema, cr_bounds = bounds, cr_id = ident, cr_depth = depth,
                     cr_data = m_data, cr_points = std_sort points\<rparr>))"

text \<open>\<^verbatim>\<open>candidates\<close>: the \<^verbatim>\<open>QueryRange\<close> is the pair of positions (begin, end).\<close>

definition candidates :: "'p ReaderEnv \<Rightarrow> 'p ChunkReader \<Rightarrow> 'p Bounds \<Rightarrow> nat \<times> nat" where
  "candidates env cr queryBounds =
     (let min_tick = calcTick env (b_min queryBounds) (cr_bounds cr) (cr_depth cr);
          max_tick = calcTick env (b_max queryBounds) (cr_bounds cr) (cr_depth cr);
          begin = std_lower_bound (cr_points cr) min_tick;
          end = std_upper_bound (cr_points cr) max_tick
      in (begin, end))"

text \<open>The records between the two positions of a range (none when end is before begin).\<close>

definition QueryRange_records :: "nat \<times> nat \<Rightarrow> 'a list \<Rightarrow> 'a list" where
  "QueryRange_records r xs = take (snd r - fst r) (drop (fst r) xs)"

section \<open>query.cpp\<close>

subsection \<open>Collaborators\<close>

text \<open>
  Modelled from the spec: \<^verbatim>\<open>Structure\<close>, \<^verbatim>\<open>Tube\<close>, \<^verbatim>\<open>SplitClimber\<close>, the chunk block
  of the cache and the reader are declared and defined outside the sources at hand.
  A tube has a primary cell and an ordered mapping from tick to secondary cells; it is
  empty when its primary cell holds no point.
\<close>

record Structure =
  baseDepthBegin :: nat
  baseDepthEnd :: nat
  coldDepthBegin :: nat
  baseIndexBegin :: nat
  factor :: nat

record 'p Tube =
  primaryCell :: "'p PointInfo option"
  secondaryCells :: "(nat \<times> 'p PointInfo) list"

definition Tube_empty :: "'p Tube \<Rightarrow> bool" where
  "Tube_empty tube = (primaryCell tube = None)"

record FetchInfo =
  fi_id :: nat
  fi_numPoints :: nat
  fi_depth :: nat

type_synonym 'p ChunkBlock = "(nat \<times> 'p ChunkReader option) list"

text \<open>
  Modelled from the spec: \<^verbatim>\<open>SplitClimber\<close>.  Its state is the current node, held as the
  stack of child positions from the node up to the root (the ``next sibling'' bookmarks);
  the depth is the height of the stack and the index follows from the positions.
  \<open>next\<close> advances in depth-first pre-order; it does not descend when told to terminate
  the current node, when the node's bounds do not intersect the query bounds, or when the
  depth equals \<open>depthEnd - 1\<close>; it yields \<open>None\<close> (C++ \<^verbatim>\<open>false\<close>) when the walk
  completes.  The spec does not say how \<open>next\<close> uses \<open>depthBegin\<close>; it is kept as a field.
\<close>

record SplitClimber =
  sc_stack :: "nat list"
  sc_factor :: nat
  sc_depthBegin :: nat
  sc_depthEnd :: nat
  sc_overlaps :: "nat list \<Rightarrow> bool"

definition SplitClimber_path :: "SplitClimber \<Rightarrow> nat list" where
  "SplitClimber_path c = rev (sc_stack c)"

definition SplitClimber_depth :: "SplitClimber \<Rightarrow> nat" where
  "SplitClimber_depth c = length (sc_stack c)"

definition node_index :: "nat \<Rightarrow> nat list \<Rightarrow> nat" where
  "node_index f path = foldl (\<lambda>i k. i * f + 1 + k) 0 path"

definition SplitClimber_index :: "SplitClimber \<Rightarrow> nat" where
  "SplitClimber_index c = node_index (sc_factor c) (SplitClimber_path c)"

fun next_sibling :: "nat \<Rightarrow> nat list \<Rightarrow> nat list option" where
  "next_sibling f [] = None"
| "next_sibling f (k # up) = (if k + 1 < f then Some ((k + 1) # up) else next_sibling f up)"

definition SplitClimber_next :: "SplitClimber \<Rightarrow> bool \<Rightarrow> SplitClimber option" where
  "SplitClimber_next c terminateCurrent =
     (if terminateCurrent \<or> \<not> sc_overlaps c (SplitClimber_path c)
         \<or> SplitClimber_depth c + 1 = sc_depthEnd c
      then (case next_sibling (sc_factor c) (sc_stack c) of
              None \<Rightarrow> None
            | Some st \<Rightarrow> Some (c\<lparr>sc_stack := st\<rparr>))
      else Some (c\<lparr>sc_stack := 0 # sc_stack c\<rparr>))"

text \<open>
  The reader, the cache and the point table as a query sees them: the structure, the
  reader's bounds, the base chunk (a tube per index, or no base), the test whether a node
  of the tree overlaps a query box, the cache's \<^verbatim>\<open>acquire\<close>, \<^verbatim>\<open>BBox::contains\<close>, and
  the bytes that the point table writes for a dimension of the output schema
  (\<^verbatim>\<open>getField\<close>, and the 4-byte float centred about the reader's midpoint).
\<close>

record 'p QueryEnv =
  qe_structure :: Structure
  qe_bbox :: "'p Bounds"
  qe_base :: "(nat \<Rightarrow> 'p Tube) option"
  qe_overlaps :: "'p Bounds \<Rightarrow> 'p Bounds \<Rightarrow> nat list \<Rightarrow> bool"
  qe_acquire :: "FetchInfo list \<Rightarrow> 'p ChunkBlock option"
  qe_contains :: "'p Bounds \<Rightarrow> 'p \<Rightarrow> bool"
  qe_getField :: "bytes \<Rightarrow> DimInfo \<Rightarrow> bytes"
  qe_getNormalized :: "'p Bounds \<Rightarrow> bytes \<Rightarrow> DimInfo \<Rightarrow> bytes"
  qe_reader :: "'p ReaderEnv"

definition SplitClimber_new ::
  "'p QueryEnv \<Rightarrow> 'p Bounds \<Rightarrow> nat \<Rightarrow> nat \<Rightarrow> SplitClimber"
where
  "SplitClimber_new env qbox depthBegin depthEnd =
     \<lparr>sc_stack = [], sc_factor = factor (qe_structure env), sc_depthBegin = depthBegin,
      sc_depthEnd = depthEnd, sc_overlaps = qe_overlaps env (qe_bbox env) qbox\<rparr>"

subsection \<open>The query\<close>

text \<open>
  The state of a \<^verbatim>\<open>Query\<close> (with its \<^verbatim>\<open>BaseQuery\<close> part).  \<open>m_buffer\<close> points to the
  caller's vector or is null: the field holds the vector's contents, and the caller reads
  them back from the state a call returns.  \<open>m_chunkReaderIt\<close> is a position in the chunk
  map of the block.
\<close>

record 'p Query =
  m_qbox :: "'p Bounds"
  m_depthBegin :: nat
  m_depthEnd :: nat
  m_chunks :: "FetchInfo list"
  m_block :: "'p ChunkBlock option"
  m_chunkReaderIt :: nat
  m_numPoints :: nat
  m_base :: bool
  m_done :: bool
  m_buffer :: "bytes option"
  m_outSchema :: Schema
  m_normalize :: bool

definition fetchesPerIteration :: nat where
  "fetchesPerIteration = 4"

text \<open>\<^verbatim>\<open>memcpy\<close> of \<open>w\<close> to position \<open>pos\<close> of a vector; past its end it is undefined.\<close>

definition write_at :: "bytes \<Rightarrow> nat \<Rightarrow> bytes \<Rightarrow> error + bytes" where
  "write_at buf pos w =
     (if length buf < pos + length w then Inl OutOfBounds
      else Inr (take pos buf @ w @ drop (pos + length w) buf))"

text \<open>
  The loop of \<^verbatim>\<open>Query::processPoint\<close> over the dimensions of the output schema.
  \<^verbatim>\<open>pdal::Dimension::size(dim.type())\<close> is the size of the dimension.
\<close>

fun processPoint_dims ::
  "'p QueryEnv \<Rightarrow> bool \<Rightarrow> bytes \<Rightarrow> DimInfo list \<Rightarrow> nat \<Rightarrow> bytes \<Rightarrow> error + bytes"
where
  "processPoint_dims env normalized data [] pos buf = Inr buf"
| "processPoint_dims env normalized data (di # dims) pos buf =
     (let field =
            (if normalized then
               (let isX = (dim_id di = DimX);
                    isY = (dim_id di = DimY);
                    isZ = (dim_id di = DimZ)
                in if (isX \<or> isY \<or> isZ) \<and> dim_size di = 4
                   then qe_getNormalized env (qe_bbox env) data di
                   else qe_getField env data di)
             else qe_getField env data di)
      in case write_at buf pos field of
           Inl e \<Rightarrow> Inl e
         | Inr buf' \<Rightarrow> processPoint_dims env normalized data dims (pos + dim_size di) buf')"

text \<open>
  \<^verbatim>\<open>Query::processPoint\<close>.  The state is returned next to the outcome, also when the
  call throws.
\<close>

definition Query_processPoint ::
  "'p QueryEnv \<Rightarrow> 'p Query \<Rightarrow> 'p PointInfo \<Rightarrow> 'p Query \<times> (error + bool)"
where
  "Query_processPoint env q info =
     (case m_buffer q of
        None \<Rightarrow> (q, Inl QueryBufferNotSet)
      | Some buffer \<Rightarrow>
          if qe_contains env (m_qbox q) (pi_point info) then
            (let resized = buffer @ replicate (pointSize (m_outSchema q)) 0;
                 pos = length resized - pointSize (m_outSchema q)
             in case processPoint_dims env (m_normalize q) (pi_data info) (m_outSchema q)
                       pos resized of
                  Inl e \<Rightarrow> (q\<lparr>m_buffer := Some resized\<rparr>, Inl e)
                | Inr buffer' \<Rightarrow> (q\<lparr>m_buffer := Some buffer'\<rparr>, Inr True))
          else (q, Inr False))"

text \<open>
  For comparison with \<^verbatim>\<open>processPoint\<close>: the bytes that the point table yields for one
  dimension of the output schema, and the output record, the fields in schema order.
\<close>

definition output_field :: "'p QueryEnv \<Rightarrow> bool \<Rightarrow> bytes \<Rightarrow> DimInfo \<Rightarrow> bytes" where
  "output_field env normalized data di =
     (if normalized \<and> dim_id di \<in> {DimX, DimY, DimZ} \<and> dim_size di = 4
      then qe_getNormalized env (qe_bbox env) data di
      else qe_getField env data di)"

definition output_record :: "'p QueryEnv \<Rightarrow> bool \<Rightarrow> bytes \<Rightarrow> Schema \<Rightarrow> bytes" where
  "output_record env normalized data schema =
     concat (map (output_field env normalized data) schema)"

text \<open>
  A sequence of \<open>if (processPoint(info)) ++m_numPoints\<close>; the flag tells whether a call
  returned true.
\<close>

fun process_each ::
  "'p QueryEnv \<Rightarrow> 'p Query \<Rightarrow> bool \<Rightarrow> 'p PointInfo list \<Rightarrow> 'p Query \<times> (error + bool)"
where
  "process_each env q existed [] = (q, Inr existed)"
| "process_each env q existed (info # infos) =
     (case Query_processPoint env q info of
        (q', Inl e) \<Rightarrow> (q', Inl e)
      | (q', Inr True) \<Rightarrow> process_each env (q'\<lparr>m_numPoints := m_numPoints q' + 1\<rparr>) True infos
      | (q', Inr False) \<Rightarrow> process_each env q' existed infos)"

text \<open>
  The \<^verbatim>\<open>do \<dots> while (splitter.next(terminate))\<close> loop of \<^verbatim>\<open>getBase\<close>.  The walk need
  not end, so the loop runs on fuel: the outcome \<open>None\<close> says that the loop was still
  running when the fuel ran out.  Next to the state the loop returns the nodes whose tube
  it has fetched, in order.
\<close>

fun getBase_loop ::
  "nat \<Rightarrow> 'p QueryEnv \<Rightarrow> (nat \<Rightarrow> 'p Tube) \<Rightarrow> SplitClimber \<Rightarrow> 'p Query \<Rightarrow> bool \<Rightarrow>
   nat list list \<Rightarrow> 'p Query \<times> nat list list \<times> (error + bool) option"
where
  "getBase_loop 0 env base splitter q dataExisted visited = (q, visited, None)"
| "getBase_loop (Suc fuel) env base splitter q dataExisted visited =
     (let tube = base (SplitClimber_index splitter);
          visited' = visited @ [SplitClimber_path splitter]
      in if \<not> Tube_empty tube then
           (case process_each env q dataExisted
                   (the (primaryCell tube) # map snd (secondaryCells tube)) of
              (q', Inl e) \<Rightarrow> (q', visited', Some (Inl e))
            | (q', Inr existed) \<Rightarrow>
                (case SplitClimber_next splitter False of
                   None \<Rightarrow> (q', visited', Some (Inr existed))
                 | Some splitter' \<Rightarrow> getBase_loop fuel env base splitter' q' existed visited'))
         else
           (case SplitClimber_next splitter True of
              None \<Rightarrow> (q, visited', Some (Inr dataExisted))
            | Some splitter' \<Rightarrow> getBase_loop fuel env base splitter' q dataExisted visited'))"

definition getBase ::
  "nat \<Rightarrow> 'p QueryEnv \<Rightarrow> 'p Query \<Rightarrow> 'p Query \<times> nat list list \<times> (error + bool) option"
where
  "getBase fuel env q =
     (case qe_base env of
        None \<Rightarrow> (q, [], Some (Inr False))
      | Some base \<Rightarrow>
          if m_depthBegin q < baseDepthEnd (qe_structure env)
             \<and> m_depthEnd q > baseDepthBegin (qe_structure env)
          then
            (let splitter = SplitClimber_new env (m_qbox q) (m_depthBegin q)
                              (min (m_depthEnd q) (baseDepthEnd (qe_structure env)))
             in if SplitClimber_index splitter < baseIndexBegin (qe_structure env)
                then (q, [], Some (Inr False))
                else getBase_loop fuel env base splitter q False [])
          else (q, [], Some (Inr False)))"

text \<open>
  For the pruning of the base walk: in a list of nodes, no node lies strictly below a node
  of the list whose tube is empty.
\<close>

definition pruned :: "nat \<Rightarrow> (nat \<Rightarrow> 'p Tube) \<Rightarrow> nat list list \<Rightarrow> bool" where
  "pruned f base nodes =
     (\<forall>a \<in> set nodes. Tube_empty (base (node_index f a)) \<longrightarrow>
        (\<forall>s. s \<noteq> [] \<longrightarrow> a @ s \<notin> set nodes))"

text \<open>
  \<^verbatim>\<open>getChunked\<close>.  Dereferencing \<open>m_chunkReaderIt\<close> at the end of the chunk map, and
  walking a candidate range whose end is before its begin, are undefined.
\<close>

definition getChunked :: "'p QueryEnv \<Rightarrow> 'p Query \<Rightarrow> 'p Query \<times> (error + unit)" where
  "getChunked env q =
     (let q1 =
            (if m_block q = None then
               (if length (m_chunks q) \<noteq> 0 then
                  (let n = min fetchesPerIteration (length (m_chunks q));
                       subset = take n (m_chunks q);
                       q' = q\<lparr>m_block := qe_acquire env subset, m_chunks := drop n (m_chunks q)\<rparr>
                   in if m_block q' \<noteq> None then q'\<lparr>m_chunkReaderIt := 0\<rparr> else q')
                else q)
             else q)
      in case m_block q1 of
           None \<Rightarrow> (q1\<lparr>m_done := (m_chunks q1 = [])\<rparr>, Inr ())
         | Some block \<Rightarrow>
             if length block \<le> m_chunkReaderIt q1 then (q1, Inl OutOfBounds)
             else
               (case snd (block ! m_chunkReaderIt q1) of
                  None \<Rightarrow> (q1, Inl ReservationFailure)
                | Some cr \<Rightarrow>
                    (let range = candidates (qe_reader env) cr (m_qbox q1)
                     in if snd range < fst range then (q1, Inl OutOfBounds)
                        else
                          (case process_each env q1 False
                                  (QueryRange_records range (cr_points cr)) of
                             (q2, Inl e) \<Rightarrow> (q2, Inl e)
                           | (q2, Inr _) \<Rightarrow>
                               (let q3 = q2\<lparr>m_chunkReaderIt := m_chunkReaderIt q2 + 1\<rparr>;
                                    q4 = (if m_chunkReaderIt q3 = length block
                                          then q3\<lparr>m_block := None\<rparr> else q3)
                                in (q4\<lparr>m_done := (m_block q4 = None \<and> m_chunks q4 = [])\<rparr>,
                                    Inr ()))))))"

text \<open>
  \<^verbatim>\<open>BaseQuery::next\<close> and \<^verbatim>\<open>Query::next\<close>.  The result is the state as the call leaves
  it, the nodes of the base whose tube was fetched, and the outcome.
\<close>

definition BaseQuery_next ::
  "nat \<Rightarrow> 'p QueryEnv \<Rightarrow> 'p Query \<Rightarrow> 'p Query \<times> nat list list \<times> (error + bool) option"
where
  "BaseQuery_next fuel env q =
     (if m_done q then (q, [], Some (Inl CalledNextAfterCompleted))
      else if m_base q then
        (case getBase fuel env (q\<lparr>m_base := False\<rparr>) of
           (q1, visited, None) \<Rightarrow> (q1, visited, None)
         | (q1, visited, Some (Inl e)) \<Rightarrow> (q1, visited, Some (Inl e))
         | (q1, visited, Some (Inr existed)) \<Rightarrow>
             if \<not> existed then
               (if m_chunks q1 = [] then
                  (let q2 = q1\<lparr>m_done := True\<rparr> in (q2, visited, Some (Inr (\<not> m_done q2))))
                else
                  (case getChunked env q1 of
                     (q2, Inl e) \<Rightarrow> (q2, visited, Some (Inl e))
                   | (q2, Inr _) \<Rightarrow> (q2, visited, Some (Inr (\<not> m_done q2)))))
             else (q1, visited, Some (Inr (\<not> m_done q1))))
      else
        (case getChunked env q of
           (q2, Inl e) \<Rightarrow> (q2, [], Some (Inl e))
         | (q2, Inr _) \<Rightarrow> (q2, [], Some (Inr (\<not> m_done q2)))))"

definition Query_next ::
  "nat \<Rightarrow> 'p QueryEnv \<Rightarrow> 'p Query \<Rightarrow> bytes \<Rightarrow>
   'p Query \<times> nat list list \<times> (error + bool) option"
where
  "Query_next fuel env q buffer =
     (if length buffer \<noteq> 0 then (q, [], Some (Inl QueryBufferNotEmpty))
      else BaseQuery_next fuel env (q\<lparr>m_buffer := Some buffer\<rparr>))"

section \<open>Fixtures for concrete runs\<close>

text \<open>
  A schema of three 8-byte coordinates, and an environment whose codec stores the bytes
  as they are and whose point reader keeps the raw X and Y fields.
\<close>

definition xyz :: Schema where
  "xyz = [\<lparr>dim_name = ''X'', dim_id = DimX, dim_type = ''floating'', dim_size = 8\<rparr>,
          \<lparr>dim_name = ''Y'', dim_id = DimY, dim_type = ''floating'', dim_size = 8\<rparr>,
          \<lparr>dim_name = ''Z'', dim_id = DimZ, dim_type = ''floating'', dim_size = 8\<rparr>]"

definition raw_env :: "bytes Env" where
  "raw_env = \<lparr>compress = (\<lambda>d s. d), decompress = (\<lambda>d s n. take n d),
              getXY = (\<lambda>s r. take 16 r), pointExists = (\<lambda>p. True)\<rparr>"

text \<open>A sparse chunk over \<open>[8, 72)\<close> in which the cells 10 and 42 have been requested.\<close>

definition sparse_two :: "bytes SparseChunkData" where
  "sparse_two =
     fst (SparseChunkData_getEntry
            (fst (SparseChunkData_getEntry (SparseChunkData_empty xyz 8 64) 10)) 42)"

text \<open>The cells 10, 42 and 1000 of a sparse chunk of 4096 cells, with distinct contents.\<close>

definition sparse_three :: "bytes SparseChunkData" where
  "sparse_three =
     \<lparr>s_schema = xyz, s_id = 0, s_maxPoints = 4096,
      s_entries = [(10, \<lparr>se_data = replicate 24 1, se_point = None\<rparr>),
                   (42, \<lparr>se_data = replicate 24 2, se_point = None\<rparr>),
                   (1000, \<lparr>se_data = replicate 24 3, se_point = None\<rparr>)]\<rparr>"

text \<open>The payload of a sparse blob with the records of the cells 10 and 42.\<close>

definition two_records :: bytes where
  "two_records = (store_u64 10 @ replicate 24 7) @ (store_u64 42 @ replicate 24 9) @ store_u64 2"

definition two_reader :: SparseReader where
  "two_reader = \<lparr>r_id = 8, r_schema = xyz,
                  r_data = [(10, replicate 24 7), (42, replicate 24 9)]\<rparr>"

text \<open>
  A reader of one-byte points whose tick is the byte, and the chunk reader built from the
  payload 5, 1, 3.
\<close>

definition byte_schema :: Schema where
  "byte_schema = [\<lparr>dim_name = ''Z'', dim_id = DimZ, dim_type = ''unsigned'', dim_size = 1\<rparr>]"

definition tick_env :: "nat ReaderEnv" where
  "tick_env = \<lparr>getXYZ = (\<lambda>s r. le_value r), calcTick = (\<lambda>p b d. p)\<rparr>"

definition tick_metadata :: "nat Metadata" where
  "tick_metadata = \<lparr>md_schema = byte_schema, md_boundsScaledCubic = \<lparr>b_min = 0, b_max = 255\<rparr>,
                     md_unpack = (\<lambda>d. (d, length d))\<rparr>"

definition ticks_reader :: "nat ChunkReader" where
  "ticks_reader =
     \<lparr>cr_schema = byte_schema, cr_bounds = \<lparr>b_min = 0, b_max = 255\<rparr>, cr_id = 1, cr_depth = 0,
      cr_data = [5, 1, 3],
      cr_points = [\<lparr>pi_point = 1, pi_data = [1], pi_tick = 1\<rparr>,
                   \<lparr>pi_point = 3, pi_data = [3], pi_tick = 3\<rparr>,
                   \<lparr>pi_point = 5, pi_data = [5], pi_tick = 5\<rparr>]\<rparr>"

text \<open>
  A reader over a binary tree with a base of three levels and one-byte points; the tubes
  of the nodes 0, 2 and 3 hold a point, every other tube is empty.  A query over the whole
  space on which \<^verbatim>\<open>next\<close> has not been called, and a stored point.
\<close>

definition plain_base :: "nat \<Rightarrow> nat Tube" where
  "plain_base i =
     (if i = 0 then \<lparr>primaryCell = Some \<lparr>pi_point = 7, pi_data = [7], pi_tick = 7\<rparr>,
                      secondaryCells = []\<rparr>
      else if i = 2 then \<lparr>primaryCell = Some \<lparr>pi_point = 9, pi_data = [9], pi_tick = 9\<rparr>,
                           secondaryCells = []\<rparr>
      else if i = 3 then \<lparr>primaryCell = Some \<lparr>pi_point = 11, pi_data = [11], pi_tick = 11\<rparr>,
                           secondaryCells = []\<rparr>
      else \<lparr>primaryCell = None, secondaryCells = []\<rparr>)"

definition plain_query_env :: "nat QueryEnv" where
  "plain_query_env =
     \<lparr>qe_structure = \<lparr>baseDepthBegin = 0, baseDepthEnd = 3, coldDepthBegin = 3,
                       baseIndexBegin = 0, factor = 2\<rparr>,
      qe_bbox = \<lparr>b_min = 0, b_max = 255\<rparr>,
      qe_base = Some plain_base,
      qe_overlaps = (\<lambda>full qbox node. True),
      qe_acquire = (\<lambda>fetches. None),
      qe_contains = (\<lambda>b p. b_min b \<le> p \<and> p \<le> b_max b),
      qe_getField = (\<lambda>data di. take (dim_size di) (data @ replicate (dim_size di) 0)),
      qe_getNormalized = (\<lambda>bbox data di. replicate 4 0),
      qe_reader = tick_env\<rparr>"

definition fresh_query :: "nat Query" where
  "fresh_query =
     \<lparr>m_qbox = \<lparr>b_min = 0, b_max = 255\<rparr>, m_depthBegin = 0, m_depthEnd = 3, m_chunks = [],
      m_block = None, m_chunkReaderIt = 0, m_numPoints = 0, m_base = True, m_done = False,
      m_buffer = None, m_outSchema = byte_schema, m_normalize = False\<rparr>"

definition seven :: "nat PointInfo" where
  "seven = \<lparr>pi_point = 7, pi_data = [7], pi_tick = 7\<rparr>"

text \<open>The chunk that owns \<open>sparse_two\<close>.\<close>

definition sparse_chunk :: "bytes Chunk" where
  "sparse_chunk = \<lparr>m_chunkData = SparseCD sparse_two, m_threshold = getThreshold xyz\<rparr>"

section \<open>Basic facts\<close>

lemma pointSize_makeSparse: "pointSize (makeSparse schema) = 8 + pointSize schema"
  by (simp add: pointSize_def makeSparse_def)

lemma getThreshold_zero:
  assumes "pointSize schema + 8 < 2 ^ 64"
  shows "getThreshold schema = Inr 0"
proof -
  let ?n = "pointSize schema"
  have a: "unat (word_of_nat ?n :: size_t) = ?n"
    using assms by (simp add: unat_of_nat)
  have "word_of_nat ?n + word_of_nat 8 = (word_of_nat (?n + 8) :: size_t)"
    by simp
  then have b: "unat (word_of_nat ?n + word_of_nat 8 :: size_t) = ?n + 8"
    using assms by (simp only: unat_of_nat) simp
  have lt: "(word_of_nat ?n :: size_t) < word_of_nat ?n + word_of_nat 8"
    using a b by (simp add: word_less_nat_alt)
  have nz: "(word_of_nat ?n + word_of_nat 8 :: size_t) \<noteq> 0"
    using b by (metis add_is_0 unat_0 zero_neq_numeral)
  have "unat ((word_of_nat ?n :: size_t) div (word_of_nat ?n + word_of_nat 8)) = 0"
    unfolding unat_div a b by simp
  then have "(word_of_nat ?n :: size_t) div (word_of_nat ?n + word_of_nat 8) = 0"
    by (simp only: unsigned_eq_0_iff)
  then show ?thesis using nz by (simp add: getThreshold_def sizeof_size_t_def Let_def)
qed

lemma length_le_bytes: "length (le_bytes k n) = k"
  by (induction k arbitrary: n) auto

lemma le_value_le_bytes: "le_value (le_bytes k n) = n mod 256 ^ k"
proof (induction k arbitrary: n)
  case 0
  then show ?case by simp
next
  case (Suc k)
  have "unat (word_of_nat (n mod 256) :: byte) = n mod 256"
    by (simp add: unat_of_nat)
  then show ?case using Suc by (simp add: mod_mult2_eq)
qed

lemma length_store_u64: "length (store_u64 w) = 8"
  by (simp add: store_u64_def length_le_bytes)

lemma load_store_u64: "load_u64 (store_u64 w @ rest) = w"
proof -
  have "take 8 (store_u64 w @ rest) = le_bytes 8 (unat w)"
    by (simp add: store_u64_def length_le_bytes)
  moreover have "unat w mod 256 ^ 8 = unat w"
    using unsigned_less [of w, where 'a = nat] by simp
  ultimately show ?thesis
    by (simp add: load_u64_def le_value_le_bytes)
qed

lemma emplace_append:
  "\<forall>x \<in> set es. fst x < k \<Longrightarrow> emplace k v es = es @ [(k, v)]"
  by (induction es) (auto)

lemma set_emplace_keys: "fst ` set (emplace k v es) = insert k (fst ` set es)"
  by (induction k v es rule: emplace.induct) auto

lemma sorted_emplace:
  "sorted (map fst es) \<Longrightarrow> sorted (map fst (emplace k v es))"
proof (induction es)
  case Nil
  then show ?case by simp
next
  case (Cons a es)
  obtain k' v' where a: "a = (k', v')" by (cases a)
  have "\<forall>x \<in> fst ` set (emplace k v es). k' \<le> x" if "\<not> k < k'"
    using Cons.prems that by (auto simp: set_emplace_keys a)
  then show ?case using Cons by (auto simp: a)
qed

lemma map_of_emplace:
  "sorted (map fst es) \<Longrightarrow>
   map_of (emplace k v es) k' =
     (case map_of es k' of Some w \<Rightarrow> Some w | None \<Rightarrow> if k' = k then Some v else None)"
proof (induction es)
  case Nil
  then show ?case by simp
next
  case (Cons a es)
  obtain ka va where a: "a = (ka, va)" by (cases a)
  show ?case
  proof (cases "k < ka")
    case True
    then have "k \<notin> fst ` set es" using Cons.prems by (auto simp: a)
    then have "map_of es k = None" by (simp add: map_of_eq_None_iff)
    then show ?thesis using True by (auto simp: a split: option.splits)
  next
    case False
    then show ?thesis using Cons by (auto simp: a split: option.splits)
  qed
qed

lemma lower_bound_all:
  "\<forall>x \<in> set es. b \<le> fst x \<Longrightarrow> map_lower_bound b es = 0"
  by (cases es) (auto simp: map_lower_bound_def)

lemma upper_bound_all:
  "\<forall>x \<in> set es. fst x \<le> u \<Longrightarrow> map_upper_bound u es = length es"
  by (simp add: map_upper_bound_def takeWhile_eq_all_conv [THEN iffD2])

lemma bounds_ordered:
  "b \<le> u \<Longrightarrow> map_lower_bound b es \<le> map_upper_bound u es"
  unfolding map_lower_bound_def map_upper_bound_def
  by (induction es) auto

lemma pointSize_xyz: "pointSize xyz = 24"
  by (simp add: xyz_def pointSize_def)

lemma sparse_two_entries:
  "s_entries sparse_two = [(10, SparseEntry_new xyz), (42, SparseEntry_new xyz)]"
  by (simp add: sparse_two_def SparseChunkData_getEntry_def SparseChunkData_empty_def map_find_def)

lemma sparse_two_schema: "s_schema sparse_two = xyz"
  by (simp add: sparse_two_def SparseChunkData_getEntry_def SparseChunkData_empty_def map_find_def)

lemma to_string_8: "to_string 8 = ''8''"
  by code_simp

section \<open>The density threshold\<close>

text \<open>
  Claim C2 says that \<^verbatim>\<open>getThreshold\<close> yields the ratio
  \<open>pointSize / (pointSize + sizeof(size_t))\<close>, strictly between 0 and 1.  The division of
  the source is between two \<^verbatim>\<open>std::size_t\<close> values: for every schema whose point size
  does not wrap, the quotient is 0 (lemma \<open>getThreshold_zero\<close>).  For three 8-byte
  coordinates the source returns 0 where the ratio is \<open>3 / 4\<close>.
\<close>

theorem getThreshold_xyz:
  "getThreshold xyz = Inr 0 \<and>
   real (pointSize xyz) / real (pointSize xyz + sizeof_size_t) = 3 / 4"
  by (simp add: getThreshold_def pointSize_xyz sizeof_size_t_def)

section \<open>The factory\<close>

text \<open>
  Claim C3: \<^verbatim>\<open>ChunkDataFactory::create\<close> fails with ``invalid chunk data'' on an empty
  vector; otherwise the trailing byte is popped and inspected: \<open>0x00\<close> goes to the
  \<^verbatim>\<open>SparseChunkData\<close> constructor and \<open>0x01\<close> to the \<^verbatim>\<open>ContiguousChunkData\<close>
  constructor, both on the vector without its marker, and any other byte fails with
  ``invalid chunk type''.
\<close>

theorem ChunkDataFactory_create_dispatch:
  "ChunkDataFactory_create env schema ident maxPoints data =
     (if data = [] then Inl InvalidChunkData
      else if last data = 0 then
        (case SparseChunkData_from env schema ident maxPoints (butlast data) of
           Inl e \<Rightarrow> Inl e | Inr c \<Rightarrow> Inr (SparseCD c))
      else if last data = 1 then
        (case ContiguousChunkData_from env schema ident maxPoints (butlast data) of
           Inl e \<Rightarrow> Inl e | Inr c \<Rightarrow> Inr (ContiguousCD c))
      else Inl InvalidChunkType) \<and>
   fst (getChunkType data) = (if data = [] then data else butlast data)"
  by (simp add: ChunkDataFactory_create_def getChunkType_def Let_def)

section \<open>Writing a sparse chunk\<close>

text \<open>
  Whatever the range, the blob ends with the count field and the marker, and the count
  field holds the size of the whole map.
\<close>

lemma SparseChunkData_write_layout:
  "SparseChunkData_write env c source b e = Inr src \<Longrightarrow>
   \<exists>payload. src (to_string b) =
     Some (payload @ store_u64 (word_of_nat (length (s_entries c))) @ [markerOf Sparse])"
  by (auto simp: SparseChunkData_write_def Let_def put_def pushNumPoints_def split: sum.splits)

lemma squash_sparse_two:
  "squash sparse_two (makeSparse xyz) 8 20 = Inr (store_u64 10 @ replicate 24 0)"
  by (simp add: squash_def sparse_two_entries sparse_two_schema pointSize_makeSparse
      pointSize_xyz sizeof_size_t_def map_lower_bound_def map_upper_bound_def
      SparseEntry_new_def)

text \<open>
  Claim C1 says that the 8 bytes before the \<open>Sparse\<close> marker hold the number of records
  serialized into the blob, the number of entries with keys in \<open>[begin, end)\<close>.  The
  marker and the position of the count are as claimed; the count is
  \<^verbatim>\<open>m_entries.size()\<close>.  Writing the range \<open>[8, 20)\<close> of the chunk holding the cells 10
  and 42 stores the one record of cell 10 followed by the count 2.
\<close>

theorem sparse_write_prefix_range_count:
  "SparseChunkData_write raw_env sparse_two Map.empty 8 20 =
     Inr [''8'' \<mapsto> (store_u64 10 @ replicate (pointSize xyz) 0) @ store_u64 2 @ [markerOf Sparse]] \<and>
   load_u64 (store_u64 2) = 2 \<and>
   length (filter (\<lambda>e. 8 \<le> fst e \<and> fst e < 20) (s_entries sparse_two)) = 1"
proof -
  have "SparseChunkData_write raw_env sparse_two Map.empty 8 20
          = Inr (put Map.empty (to_string 8)
                   (store_u64 10 @ replicate 24 0 @ store_u64 2 @ [markerOf Sparse]))"
    by (simp add: SparseChunkData_write_def sparse_two_schema squash_sparse_two
        sparse_two_entries raw_env_def pushNumPoints_def Let_def)
  moreover have "load_u64 (store_u64 2) = 2"
    using load_store_u64 [of 2 "[]"] by simp
  moreover have "length (filter (\<lambda>e. 8 \<le> fst e \<and> fst e < 20) (s_entries sparse_two)) = 1"
    by (simp add: sparse_two_entries)
  ultimately show ?thesis
    by (simp add: put_def to_string_8 pointSize_xyz)
qed

section \<open>Lookup in a sparse reader\<close>

lemma SparseReader_decode_lookup:
  "sorted (map fst m) \<Longrightarrow> SparseReader_decode schema rest m = Inr m' \<Longrightarrow>
   sorted (map fst m') \<and>
   map_of m' k = (case map_of m k of Some v \<Rightarrow> Some v
                  | None \<Rightarrow> map_of (decoded_records schema rest) k)"
proof (induction schema rest m rule: SparseReader_decode.induct)
  case (1 schema rest m)
  show ?case
  proof (cases "rest = []")
    case True
    then have "m' = m" using "1.prems"(2)
      by (subst (asm) SparseReader_decode.simps) simp
    moreover have "decoded_records schema rest = []" using True
      by (subst decoded_records.simps) (simp add: pointSize_makeSparse)
    ultimately show ?thesis using "1.prems"(1)
      by (auto split: option.splits)
  next
    case False
    note ne = this
    show ?thesis
    proof (cases "length rest < pointSize (makeSparse schema)")
      case True
      then show ?thesis using "1.prems"(2) ne
        by (subst (asm) SparseReader_decode.simps) simp
    next
      case False
      let ?k = "load_u64 rest"
      let ?v = "drop sizeof_size_t (take (pointSize (makeSparse schema)) rest)"
      let ?m1 = "emplace ?k ?v m"
      have s1: "sorted (map fst ?m1)" using "1.prems"(1) by (rule sorted_emplace)
      have d1: "SparseReader_decode schema (drop (pointSize (makeSparse schema)) rest) ?m1 = Inr m'"
        using "1.prems"(2) ne False
        by (subst (asm) SparseReader_decode.simps) simp
      have ih: "sorted (map fst m') \<and>
            map_of m' k = (case map_of ?m1 k of Some v \<Rightarrow> Some v
               | None \<Rightarrow> map_of (decoded_records schema (drop (pointSize (makeSparse schema)) rest)) k)"
        using "1.IH" [OF ne False s1 d1] .
      have rec: "decoded_records schema rest =
            (?k, ?v) # decoded_records schema (drop (pointSize (makeSparse schema)) rest)"
        using False by (subst decoded_records.simps) simp
      show ?thesis
        using ih by (auto simp: rec map_of_emplace [OF "1.prems"(1)] split: option.splits)
    qed
  qed
qed

text \<open>
  Claim C9: \<^verbatim>\<open>SparseReader::getData\<close> returns the null pointer when the index is not among
  those decoded at construction, and otherwise the point bytes of the record of that
  index (the first one, should an index occur twice); it has no error outcome.
\<close>

theorem SparseReader_getData_lookup:
  assumes "SparseReader_from env ident schema data = Inr r"
  shows "SparseReader_getData r rawIndex =
           map_of (records_at_construction env schema data) rawIndex \<and>
         (SparseReader_getData r rawIndex = None) =
           (rawIndex \<notin> fst ` set (records_at_construction env schema data))"
proof -
  let ?sq = "decompress env (take (length data - 8) data) (makeSparse schema)
          (unat (load_u64 (drop (length data - 8) data)
                   * word_of_nat (pointSize (makeSparse schema))))"
  from assms have dec: "SparseReader_decode schema ?sq [] = Inr (r_data r)"
    by (auto simp: SparseReader_from_def popNumPoints_def sizeof_size_t_def Let_def
        split: if_splits sum.splits)
  have "map_of (r_data r) rawIndex = map_of (decoded_records schema ?sq) rawIndex"
    using SparseReader_decode_lookup [OF _ dec, of rawIndex] by simp
  then have a: "SparseReader_getData r rawIndex =
           map_of (records_at_construction env schema data) rawIndex"
    by (simp add: SparseReader_getData_def map_find_def records_at_construction_def
        split: option.splits)
  show ?thesis unfolding a by (simp add: map_of_eq_None_iff)
qed

lemma two_reader_constructed:
  "SparseReader_from raw_env 8 xyz two_records = Inr two_reader"
  by code_simp

lemma two_records_decoded:
  "records_at_construction raw_env xyz two_records = [(10, replicate 24 7), (42, replicate 24 9)]"
  by code_simp

theorem SparseReader_getData_lookup_witness:
  "SparseReader_from raw_env 8 xyz two_records = Inr two_reader \<and>
   SparseReader_getData two_reader 42 = Some (replicate 24 9) \<and>
   SparseReader_getData two_reader 11 = None"
  using SparseReader_getData_lookup [OF two_reader_constructed, of 42]
    SparseReader_getData_lookup [OF two_reader_constructed, of 11]
  by (simp add: two_reader_constructed two_records_decoded)

section \<open>Round trip of a sparse chunk\<close>

lemma store_u64_not_Nil: "store_u64 w \<noteq> []"
  using length_store_u64 [of w] by auto

lemma SparseEntry_at_append:
  "length d = pointSize schema \<Longrightarrow>
   SparseEntry_at env schema (d @ trailing) = SparseEntry_at env schema d"
  by (simp add: SparseEntry_at_def)

lemma SparseChunkData_decode_squashed:
  assumes "sorted_wrt (<) (map fst m @ map fst es)"
    and "\<forall>e \<in> set es. length (se_data (snd e)) = pointSize schema"
  shows "SparseChunkData_decode env schema
           (concat (map (\<lambda>(k, e). store_u64 k @ take (pointSize schema) (se_data e)) es)) m
         = Inr (m @ map (\<lambda>(k, e). (k, SparseEntry_at env schema (se_data e))) es)"
  using assms
proof (induction es arbitrary: m)
  case Nil
  then show ?case by (subst SparseChunkData_decode.simps) simp
next
  case (Cons a es)
  obtain k e where a: "a = (k, e)" by (cases a)
  let ?trailing = "concat (map (\<lambda>(k, e). store_u64 k @ take (pointSize schema) (se_data e)) es)"
  let ?rest = "store_u64 k @ se_data e @ ?trailing"
  have len: "length (se_data e) = pointSize schema" using Cons.prems(2) by (simp add: a)
  have lt: "\<forall>x \<in> set m. fst x < k"
    using Cons.prems(1) by (auto simp: a sorted_wrt_append)
  have em: "emplace k (SparseEntry_at env schema (se_data e)) m
              = m @ [(k, SparseEntry_at env schema (se_data e))]"
    using lt by (rule emplace_append)
  have srt: "sorted_wrt (<) (map fst (m @ [(k, SparseEntry_at env schema (se_data e))]) @ map fst es)"
    using Cons.prems(1) by (simp add: a)
  have ih: "SparseChunkData_decode env schema ?trailing (m @ [(k, SparseEntry_at env schema (se_data e))])
        = Inr ((m @ [(k, SparseEntry_at env schema (se_data e))])
               @ map (\<lambda>(k, e). (k, SparseEntry_at env schema (se_data e))) es)"
    using Cons.IH [OF srt] Cons.prems(2) by simp
  have "SparseChunkData_decode env schema ?rest m
          = SparseChunkData_decode env schema ?trailing
              (emplace k (SparseEntry_at env schema (se_data e)) m)"
    by (subst SparseChunkData_decode.simps)
       (simp add: length_store_u64 pointSize_makeSparse len load_store_u64
          sizeof_size_t_def SparseEntry_at_append store_u64_not_Nil)
  then show ?case using ih by (simp add: a len em)
qed

lemma length_squashed:
  "\<forall>e \<in> set es. length (se_data (snd e)) = n \<Longrightarrow>
   length (concat (map (\<lambda>(k, e). store_u64 k @ take n (se_data e)) es)) = length es * (8 + n)"
  by (induction es) (auto simp: length_store_u64)

lemma squash_full_range:
  assumes "\<forall>e \<in> set (s_entries c). b \<le> fst e \<and> fst e < u"
  shows "squash c (makeSparse (s_schema c)) b u =
           Inr (concat (map (\<lambda>(k, e). store_u64 k @ take (pointSize (s_schema c)) (se_data e))
                  (s_entries c)))"
proof -
  have lb: "map_lower_bound b (s_entries c) = 0"
    using assms by (simp add: lower_bound_all)
  have "\<forall>e \<in> set (s_entries c). fst e \<le> u - 1"
    using assms by (simp add: less_imp_less_eq_dec)
  then have ub: "map_upper_bound (u - 1) (s_entries c) = length (s_entries c)"
    by (rule upper_bound_all)
  show ?thesis
    by (simp add: squash_def pointSize_makeSparse sizeof_size_t_def lb ub)
qed

text \<open>
  Claim C4: a sparse chunk, written over its full range \<open>[m_id, endId)\<close> and rebuilt by
  the factory from the stored blob, has the same populated indices with the same point
  bytes.  The chunk is one the code can build: its map is ordered without duplicate keys,
  every entry holds \<open>pointSize\<close> bytes, every index lies in the chunk's range, and the
  squashed size fits \<^verbatim>\<open>std::size_t\<close>; the codec restores what it compressed when
  given the original size.
\<close>

theorem sparse_round_trip:
  assumes wf: "wf_map (s_entries c)"
    and len: "\<forall>e \<in> set (s_entries c). length (se_data (snd e)) = pointSize (s_schema c)"
    and rng: "\<forall>e \<in> set (s_entries c). s_id c \<le> fst e \<and> fst e < s_id c + s_maxPoints c"
    and size: "length (s_entries c) * pointSize (makeSparse (s_schema c)) < 2 ^ 64"
    and codec: "\<forall>d. decompress env (compress env d (makeSparse (s_schema c)))
                       (makeSparse (s_schema c)) (length d) = d"
  shows "\<exists>blob c'.
           ChunkData_save env (SparseCD c) source = Inr (source(to_string (s_id c) \<mapsto> blob)) \<and>
           ChunkDataFactory_create env (s_schema c) (s_id c) (s_maxPoints c) blob
             = Inr (SparseCD c') \<and>
           map (\<lambda>(k, e). (k, se_data e)) (s_entries c')
             = map (\<lambda>(k, e). (k, se_data e)) (s_entries c)"
proof -
  let ?schema = "s_schema c"
  let ?sparse = "makeSparse ?schema"
  let ?n = "length (s_entries c)"
  let ?sq = "concat (map (\<lambda>(k, e). store_u64 k @ take (pointSize ?schema) (se_data e))
                  (s_entries c))"
  let ?blob = "(compress env ?sq ?sparse @ store_u64 (word_of_nat ?n)) @ [markerOf Sparse]"
  let ?es' = "map (\<lambda>(k, e). (k, SparseEntry_at env ?schema (se_data e))) (s_entries c)"
  let ?c' = "\<lparr>s_schema = ?schema, s_id = s_id c, s_maxPoints = s_maxPoints c, s_entries = ?es'\<rparr>"
  have sq: "squash c ?sparse (s_id c) (s_id c + s_maxPoints c) = Inr ?sq"
    using rng by (rule squash_full_range)
  have save: "ChunkData_save env (SparseCD c) source
                = Inr (source(to_string (s_id c) \<mapsto> ?blob))"
    by (simp add: ChunkData_save_def endId_def SparseChunkData_write_def sq
        pushNumPoints_def put_def Let_def)
  have lsq: "length ?sq = ?n * pointSize ?sparse"
    using len by (simp add: length_squashed pointSize_makeSparse)
  have "unat (word_of_nat ?n * word_of_nat (pointSize ?sparse) :: size_t)
          = ?n * pointSize ?sparse"
    using size by (simp add: unat_of_nat flip: of_nat_mult)
  then have dsz: "unat (word_of_nat ?n * word_of_nat (pointSize ?sparse) :: size_t) = length ?sq"
    using lsq by simp
  have pop: "popNumPoints (compress env ?sq ?sparse @ store_u64 (word_of_nat ?n))
               = (compress env ?sq ?sparse, Inr (word_of_nat ?n))"
    using load_store_u64 [of "word_of_nat ?n" "[]"]
    by (simp add: popNumPoints_def sizeof_size_t_def length_store_u64 Let_def)
  have srt: "sorted_wrt (<) (map fst ([] :: (size_t \<times> 'a SparseEntry) list) @ map fst (s_entries c))"
    using wf by (simp add: wf_map_def strict_sorted_iff)
  have dec: "SparseChunkData_decode env ?schema ?sq [] = Inr ?es'"
    using SparseChunkData_decode_squashed [OF srt len, of env] by simp
  have ctor: "SparseChunkData_from env ?schema (s_id c) (s_maxPoints c)
                (compress env ?sq ?sparse @ store_u64 (word_of_nat ?n)) = Inr ?c'"
    using codec by (simp add: SparseChunkData_from_def pop Let_def dsz dec)
  have create: "ChunkDataFactory_create env ?schema (s_id c) (s_maxPoints c) ?blob
                  = Inr (SparseCD ?c')"
    by (simp add: ChunkDataFactory_create_def getChunkType_def ctor Let_def butlast_append)
  have same: "map (\<lambda>(k, e). (k, se_data e)) (s_entries ?c')
                = map (\<lambda>(k, e). (k, se_data e)) (s_entries c)"
    using len by (auto simp: SparseEntry_at_def)
  show ?thesis using save create same by blast
qed

theorem sparse_round_trip_witness:
  "\<exists>blob c'.
     ChunkData_save raw_env (SparseCD sparse_three) Map.empty = Inr [''0'' \<mapsto> blob] \<and>
     ChunkDataFactory_create raw_env xyz 0 4096 blob = Inr (SparseCD c') \<and>
     map (\<lambda>(k, e). (k, se_data e)) (s_entries c')
       = [(10, replicate 24 1), (42, replicate 24 2), (1000, replicate 24 3)]"
proof -
  have wf: "wf_map (s_entries sparse_three)"
    by (simp add: sparse_three_def wf_map_def)
  have len: "\<forall>e \<in> set (s_entries sparse_three).
               length (se_data (snd e)) = pointSize (s_schema sparse_three)"
    by (simp add: sparse_three_def pointSize_xyz)
  have rng: "\<forall>e \<in> set (s_entries sparse_three).
               s_id sparse_three \<le> fst e \<and> fst e < s_id sparse_three + s_maxPoints sparse_three"
    by (simp add: sparse_three_def)
  have size: "length (s_entries sparse_three) * pointSize (makeSparse (s_schema sparse_three))
                < 2 ^ 64"
    by (simp add: sparse_three_def pointSize_makeSparse pointSize_xyz)
  have codec: "\<forall>d. decompress raw_env (compress raw_env d (makeSparse (s_schema sparse_three)))
                       (makeSparse (s_schema sparse_three)) (length d) = d"
    by (simp add: raw_env_def)
  have z: "to_string 0 = ''0''" by code_simp
  show ?thesis
    using sparse_round_trip [OF wf len rng size codec, of Map.empty]
    by (simp add: sparse_three_def z)
qed

section \<open>Candidates of a chunk reader\<close>

lemma range_is_filter:
  "sorted (map f xs) \<Longrightarrow>
   take (length (takeWhile (\<lambda>x. f x \<le> hi) xs) - length (takeWhile (\<lambda>x. f x < lo) xs))
     (drop (length (takeWhile (\<lambda>x. f x < lo) xs)) xs)
   = filter (\<lambda>x. lo \<le> f x \<and> f x \<le> (hi::nat)) xs"
proof (induction xs)
  case Nil
  then show ?case by simp
next
  case (Cons x xs)
  have srt: "sorted (map f xs)" and ge: "\<forall>y \<in> set xs. f x \<le> f y"
    using Cons.prems by auto
  show ?case
  proof (cases "f x \<le> hi")
    case True
    note le_hi = this
    show ?thesis
    proof (cases "f x < lo")
      case True
      then show ?thesis using le_hi Cons.IH [OF srt] by simp
    next
      case False
      then have "\<forall>y \<in> set xs. \<not> f y < lo" using ge by auto
      then have "takeWhile (\<lambda>x. f x < lo) xs = []" by (cases xs) auto
      then show ?thesis using le_hi False Cons.IH [OF srt] by simp
    qed
  next
    case False
    then have "\<forall>y \<in> set xs. \<not> f y \<le> hi" using ge by auto
    then have "filter (\<lambda>x. lo \<le> f x \<and> f x \<le> hi) xs = []" by (simp add: filter_empty_conv)
    then show ?thesis using False by simp
  qed
qed

text \<open>On an ordered vector the range holds exactly the records of the tick interval.\<close>

lemma candidates_records:
  assumes "sorted (map pi_tick (cr_points cr))"
  shows "QueryRange_records (candidates env cr qb) (cr_points cr) =
           filter (\<lambda>p. calcTick env (b_min qb) (cr_bounds cr) (cr_depth cr) \<le> pi_tick p \<and>
                       pi_tick p \<le> calcTick env (b_max qb) (cr_bounds cr) (cr_depth cr))
             (cr_points cr)"
  using range_is_filter [OF assms]
  by (simp add: QueryRange_records_def candidates_def std_lower_bound_def std_upper_bound_def
      Let_def not_less)

text \<open>With \<open>calcTick(B.min) \<le> calcTick(B.max)\<close> the end of the range is not before its begin.\<close>

lemma candidates_ordered:
  assumes "calcTick env (b_min qb) (cr_bounds cr) (cr_depth cr)
             \<le> calcTick env (b_max qb) (cr_bounds cr) (cr_depth cr)"
  shows "fst (candidates env cr qb) \<le> snd (candidates env cr qb)"
proof -
  have "length (takeWhile (\<lambda>x. pi_tick x < lo) xs) \<le> length (takeWhile (\<lambda>x. \<not> hi < pi_tick x) xs)"
    if "lo \<le> hi" for lo hi :: nat and xs :: "'a PointInfo list"
    using that by (induction xs) auto
  then show ?thesis
    using assms by (simp add: candidates_def std_lower_bound_def std_upper_bound_def Let_def)
qed

lemma ChunkReader_new_sorted:
  "ChunkReader_new env metadata ident depth data = Inr cr \<Longrightarrow> sorted (map pi_tick (cr_points cr))"
  by (auto simp: ChunkReader_new_def std_sort_def Let_def split: prod.splits if_splits)

text \<open>
  Claim C5: for a constructed \<^verbatim>\<open>ChunkReader\<close> and query bounds \<open>B\<close>, the range of
  \<^verbatim>\<open>candidates(B)\<close> is ordered by tick, each of its records has its tick between
  \<open>calcTick(B.min)\<close> and \<open>calcTick(B.max)\<close>, and every stored record with its tick in that
  interval is in the range.
\<close>

theorem candidates_tick_range:
  assumes "ChunkReader_new env metadata ident depth data = Inr cr"
  shows "sorted (map pi_tick (QueryRange_records (candidates env cr qb) (cr_points cr))) \<and>
         (\<forall>p \<in> set (QueryRange_records (candidates env cr qb) (cr_points cr)).
            calcTick env (b_min qb) (cr_bounds cr) (cr_depth cr) \<le> pi_tick p \<and>
            pi_tick p \<le> calcTick env (b_max qb) (cr_bounds cr) (cr_depth cr)) \<and>
         (\<forall>p \<in> set (cr_points cr).
            calcTick env (b_min qb) (cr_bounds cr) (cr_depth cr) \<le> pi_tick p \<and>
            pi_tick p \<le> calcTick env (b_max qb) (cr_bounds cr) (cr_depth cr) \<longrightarrow>
            p \<in> set (QueryRange_records (candidates env cr qb) (cr_points cr)))"
proof -
  have s: "sorted (map pi_tick (cr_points cr))"
    using assms by (rule ChunkReader_new_sorted)
  show ?thesis
    unfolding candidates_records [OF s] using s by (auto simp: sorted_filter)
qed

lemma ticks_reader_constructed:
  "ChunkReader_new tick_env tick_metadata 1 0 [5, 1, 3] = Inr ticks_reader"
  by (simp add: ChunkReader_new_def tick_env_def tick_metadata_def ticks_reader_def
      byte_schema_def pointSize_def std_sort_def Let_def upt_rec [of 0] upt_rec [of 1]
      upt_rec [of 2])

theorem candidates_tick_range_witness:
  "ChunkReader_new tick_env tick_metadata 1 0 [5, 1, 3] = Inr ticks_reader \<and>
   candidates tick_env ticks_reader \<lparr>b_min = 2, b_max = 5\<rparr> = (1, 3) \<and>
   map pi_tick (QueryRange_records (candidates tick_env ticks_reader \<lparr>b_min = 2, b_max = 5\<rparr>)
                  (cr_points ticks_reader)) = [3, 5] \<and>
   sorted (map pi_tick (QueryRange_records (candidates tick_env ticks_reader \<lparr>b_min = 2, b_max = 5\<rparr>)
                  (cr_points ticks_reader)))"
proof -
  have c: "candidates tick_env ticks_reader \<lparr>b_min = 2, b_max = 5\<rparr> = (1, 3)"
    by (simp add: candidates_def tick_env_def ticks_reader_def std_lower_bound_def
        std_upper_bound_def)
  have r: "map pi_tick (QueryRange_records (1, 3) (cr_points ticks_reader)) = [3, 5]"
    by (simp add: QueryRange_records_def ticks_reader_def)
  show ?thesis
    using candidates_tick_range [OF ticks_reader_constructed, of "\<lparr>b_min = 2, b_max = 5\<rparr>"]
      ticks_reader_constructed c r
    by simp
qed

section \<open>Processing a point\<close>

lemma pointSize_Cons: "pointSize (di # dims) = dim_size di + pointSize dims"
  by (simp add: pointSize_def)

lemma processPoint_dims_Cons:
  "processPoint_dims env normalized data (di # dims) pos buf =
     (case write_at buf pos (output_field env normalized data di) of
        Inl e \<Rightarrow> Inl e
      | Inr buf' \<Rightarrow> processPoint_dims env normalized data dims (pos + dim_size di) buf')"
  by (simp add: output_field_def Let_def)

lemma processPoint_dims_fills:
  assumes "\<forall>di \<in> set dims. length (output_field env normalized data di) = dim_size di"
    and "length pre = pos" and "length z = pointSize dims"
  shows "processPoint_dims env normalized data dims pos (pre @ z)
           = Inr (pre @ output_record env normalized data dims)"
  using assms
proof (induction dims arbitrary: pre pos z)
  case Nil
  then show ?case by (simp add: output_record_def pointSize_def)
next
  case (Cons di dims)
  let ?w = "output_field env normalized data di"
  have lw: "length ?w = dim_size di" using Cons.prems(1) by simp
  have lz: "length z = dim_size di + pointSize dims"
    using Cons.prems(3) by (simp add: pointSize_Cons)
  have wr: "write_at (pre @ z) pos ?w = Inr ((pre @ ?w) @ drop (dim_size di) z)"
    using Cons.prems(2) lw lz by (simp add: write_at_def)
  have ih: "processPoint_dims env normalized data dims (pos + dim_size di)
              ((pre @ ?w) @ drop (dim_size di) z)
            = Inr ((pre @ ?w) @ output_record env normalized data dims)"
    using Cons.prems lw lz by (intro Cons.IH) auto
  have "processPoint_dims env normalized data (di # dims) pos (pre @ z)
          = Inr ((pre @ ?w) @ output_record env normalized data dims)"
    by (simp only: processPoint_dims_Cons wr sum.case ih)
  then show ?case by (simp add: output_record_def)
qed

lemma length_output_record:
  "\<forall>di \<in> set dims. length (output_field env normalized data di) = dim_size di \<Longrightarrow>
   length (output_record env normalized data dims) = pointSize dims"
  by (induction dims) (auto simp: output_record_def pointSize_def)

text \<open>
  Claim C6, as amended: when the table writes \<open>dim.size()\<close> bytes for every dimension of
  the output schema, \<^verbatim>\<open>Query::processPoint\<close> raises ``Query buffer not set'' and changes
  nothing if no buffer has been set; with a buffer set it appends exactly the output
  record, of \<open>outSchema.pointSize\<close> bytes, and returns true if the query bounds contain
  the point, and leaves the state as it is and returns false if they do not.
\<close>

theorem Query_processPoint_outcome:
  assumes "\<forall>di \<in> set (m_outSchema q).
             length (output_field env (m_normalize q) (pi_data info) di) = dim_size di"
  shows "Query_processPoint env q info =
           (case m_buffer q of
              None \<Rightarrow> (q, Inl QueryBufferNotSet)
            | Some buffer \<Rightarrow>
                if qe_contains env (m_qbox q) (pi_point info)
                then (q\<lparr>m_buffer := Some (buffer @ output_record env (m_normalize q) (pi_data info)
                                                    (m_outSchema q))\<rparr>, Inr True)
                else (q, Inr False)) \<and>
         length (output_record env (m_normalize q) (pi_data info) (m_outSchema q))
           = pointSize (m_outSchema q)"
proof -
  have "processPoint_dims env (m_normalize q) (pi_data info) (m_outSchema q)
          (length (buffer @ replicate (pointSize (m_outSchema q)) 0) - pointSize (m_outSchema q))
          (buffer @ replicate (pointSize (m_outSchema q)) 0)
        = Inr (buffer @ output_record env (m_normalize q) (pi_data info) (m_outSchema q))"
    for buffer
    using assms by (intro processPoint_dims_fills) auto
  then show ?thesis
    using length_output_record [OF assms]
    by (simp add: Query_processPoint_def Let_def split: option.splits)
qed

theorem Query_processPoint_outcome_witness:
  "Query_processPoint plain_query_env (fresh_query\<lparr>m_buffer := Some [1]\<rparr>) seven
     = (fresh_query\<lparr>m_buffer := Some [1, 7]\<rparr>, Inr True) \<and>
   Query_processPoint plain_query_env (fresh_query\<lparr>m_qbox := \<lparr>b_min = 8, b_max = 9\<rparr>, m_buffer := Some [1]\<rparr>) seven
     = (fresh_query\<lparr>m_qbox := \<lparr>b_min = 8, b_max = 9\<rparr>, m_buffer := Some [1]\<rparr>, Inr False) \<and>
   Query_processPoint plain_query_env fresh_query seven = (fresh_query, Inl QueryBufferNotSet)"
proof -
  have h: "\<forall>di \<in> set (m_outSchema q).
             length (output_field plain_query_env (m_normalize q) (pi_data seven) di) = dim_size di"
    if "m_outSchema q = byte_schema" "\<not> m_normalize q" for q :: "nat Query"
    using that by (simp add: output_field_def plain_query_env_def byte_schema_def)
  have h1: "\<forall>di \<in> set (m_outSchema (fresh_query\<lparr>m_buffer := Some [1]\<rparr>)).
             length (output_field plain_query_env (m_normalize (fresh_query\<lparr>m_buffer := Some [1]\<rparr>)) (pi_data seven) di) = dim_size di"
    by (rule h) (simp_all add: fresh_query_def)
  have h2: "\<forall>di \<in> set (m_outSchema (fresh_query\<lparr>m_qbox := \<lparr>b_min = 8, b_max = 9\<rparr>, m_buffer := Some [1]\<rparr>)).
             length (output_field plain_query_env (m_normalize (fresh_query\<lparr>m_qbox := \<lparr>b_min = 8, b_max = 9\<rparr>, m_buffer := Some [1]\<rparr>)) (pi_data seven) di) = dim_size di"
    by (rule h) (simp_all add: fresh_query_def)
  have h3: "\<forall>di \<in> set (m_outSchema fresh_query).
             length (output_field plain_query_env (m_normalize fresh_query) (pi_data seven) di) = dim_size di"
    by (rule h) (simp_all add: fresh_query_def)
  show ?thesis
    using Query_processPoint_outcome [OF h1] Query_processPoint_outcome [OF h2]
      Query_processPoint_outcome [OF h3]
    by (simp add: fresh_query_def plain_query_env_def seven_def output_record_def
        output_field_def byte_schema_def)
qed

text \<open>
  Claim C6 as stated fails on a query whose buffer has not been set: the bounds contain the
  point, yet no record is appended and the call raises instead of returning true.
\<close>

theorem processPoint_without_buffer:
  "qe_contains plain_query_env (m_qbox fresh_query) (pi_point seven) \<and>
   Query_processPoint plain_query_env fresh_query seven = (fresh_query, Inl QueryBufferNotSet)"
  by (simp add: Query_processPoint_def plain_query_env_def fresh_query_def seven_def)

section \<open>Misuse of next\<close>

text \<open>
  Claim C8: \<^verbatim>\<open>BaseQuery::next\<close> on a completed query raises and leaves the state as it
  was, and \<^verbatim>\<open>Query::next(buffer)\<close> with a non-empty buffer raises before any tube is
  fetched or point processed, the state being as it was.
\<close>

theorem misuse_raises:
  "(m_done q \<longrightarrow> BaseQuery_next fuel env q = (q, [], Some (Inl CalledNextAfterCompleted))) \<and>
   (buffer \<noteq> [] \<longrightarrow> Query_next fuel env q buffer = (q, [], Some (Inl QueryBufferNotEmpty)))"
  by (simp add: BaseQuery_next_def Query_next_def)

theorem misuse_raises_witness:
  "m_done (fresh_query\<lparr>m_done := True\<rparr>) \<and>
   BaseQuery_next 5 plain_query_env (fresh_query\<lparr>m_done := True\<rparr>)
     = (fresh_query\<lparr>m_done := True\<rparr>, [], Some (Inl CalledNextAfterCompleted)) \<and>
   Query_next 5 plain_query_env fresh_query [7]
     = (fresh_query, [], Some (Inl QueryBufferNotEmpty))"
  using misuse_raises [of "fresh_query\<lparr>m_done := True\<rparr>" 5 plain_query_env "[7]"]
    misuse_raises [of fresh_query 5 plain_query_env "[7]"]
  by simp

section \<open>Finalizing a chunk\<close>

lemma finalize_loop_slices:
  assumes "0 < unat cp" and "unat e + unat cp \<le> 2 ^ 64"
  shows "finalize_loop w e cp a source ids =
           Some (case write_ranges w
                        (map (\<lambda>b. (word_of_nat b, word_of_nat b + cp))
                           (slice_begins (unat a) (unat e) (unat cp))) source of
                   Inl err \<Rightarrow> Inl err
                 | Inr source' \<Rightarrow>
                     Inr (source', ids @ map word_of_nat (slice_begins (unat a) (unat e) (unat cp))))"
proof (induction "unat e - unat a" arbitrary: a source ids rule: less_induct)
  case less
  show ?case
  proof (cases "a < e")
    case False
    then have "\<not> unat a < unat e" by (simp add: word_less_nat_alt)
    then have "slice_begins (unat a) (unat e) (unat cp) = []"
      by (subst slice_begins.simps) simp
    then show ?thesis using False by (subst finalize_loop.simps) simp
  next
    case True
    then have lt: "unat a < unat e" by (simp add: word_less_nat_alt)
    then have "unat a + unat cp < 2 ^ 64" using assms(2) by simp
    then have ua: "unat (a + cp) = unat a + unat cp"
      by (simp add: unat_add_lem [THEN iffD1])
    have sb: "slice_begins (unat a) (unat e) (unat cp)
                = unat a # slice_begins (unat (a + cp)) (unat e) (unat cp)"
      using lt assms(1) by (subst slice_begins.simps) (simp add: ua)
    have dec: "unat e - unat (a + cp) < unat e - unat a"
      using lt assms(1) by (simp add: ua)
    show ?thesis
    proof (cases "w source a (a + cp)")
      case (Inl err)
      then show ?thesis using True by (subst finalize_loop.simps) (simp add: sb)
    next
      case (Inr source')
      have "finalize_loop w e cp a source ids
              = finalize_loop w e cp (a + cp) source' (ids @ [a])"
        using True Inr by (subst finalize_loop.simps) simp
      then show ?thesis
        using less [OF dec, of source' "ids @ [a]"] Inr
        by (simp add: sb split: sum.splits)
    qed
  qed
qed

lemma ChunkData_finalize_ranges:
  assumes "0 < chunkPoints" and "unat (endId cd) + unat chunkPoints \<le> 2 ^ 64"
  shows "ChunkData_finalize env cd source ids start chunkPoints =
           Some (case write_ranges (ChunkData_write env cd)
                        (finalize_ranges cd start chunkPoints) source of
                   Inl err \<Rightarrow> Inl err
                 | Inr source' \<Rightarrow>
                     Inr (source', ids @ map fst (finalize_ranges cd start chunkPoints)))"
proof -
  have cp: "0 < unat chunkPoints" using assms(1) by (simp add: word_less_nat_alt)
  have m: "map fst (map (\<lambda>b. (word_of_nat b, word_of_nat b + chunkPoints)) bs)
             = (map word_of_nat bs :: size_t list)" for bs
    by (simp add: comp_def)
  show ?thesis
    by (simp add: ChunkData_finalize_def finalize_ranges_def finalize_loop_slices [OF cp assms(2)] m
        split: sum.splits)
qed

lemma single_slice:
  assumes "0 < n" and "a + n = e"
  shows "slice_begins a e n = [a]"
proof -
  have "slice_begins (a + n) e n = []" using assms by (subst slice_begins.simps) simp
  then show ?thesis using assms by (subst slice_begins.simps) simp
qed

lemma SparseChunkData_write_succeeds:
  "b \<le> e - 1 \<Longrightarrow> \<exists>source'. SparseChunkData_write env c source b e = Inr source'"
  using bounds_ordered [of b "e - 1" "s_entries c"]
  by (simp add: SparseChunkData_write_def squash_def pointSize_makeSparse sizeof_size_t_def
      Let_def not_less)

lemma finalize_as_save:
  assumes "0 < ChunkData_maxPoints cd"
    and "unat (endId cd) + unat (ChunkData_maxPoints cd) \<le> 2 ^ 64"
    and "start \<le> ChunkData_id cd"
    and "unat (ChunkData_id cd) + unat (ChunkData_maxPoints cd) < 2 ^ 64"
  shows "ChunkData_finalize env cd source ids start (ChunkData_maxPoints cd) =
           Some (case ChunkData_save env cd source of
                   Inl err \<Rightarrow> Inl err
                 | Inr source' \<Rightarrow> Inr (source', ids @ [ChunkData_id cd]))"
proof -
  have e: "unat (endId cd) = unat (ChunkData_id cd) + unat (ChunkData_maxPoints cd)"
    using assms(4) by (simp add: endId_def unat_add_lem [THEN iffD1])
  have n: "0 < unat (ChunkData_maxPoints cd)"
    using assms(1) by (simp add: word_less_nat_alt)
  have m: "max start (ChunkData_id cd) = ChunkData_id cd"
    using assms(3) by (simp add: max_def)
  have sb: "slice_begins (unat (ChunkData_id cd)) (unat (endId cd)) (unat (ChunkData_maxPoints cd))
              = [unat (ChunkData_id cd)]"
    unfolding e by (rule single_slice [OF n refl])
  have r: "finalize_ranges cd start (ChunkData_maxPoints cd) = [(ChunkData_id cd, endId cd)]"
    unfolding finalize_ranges_def m sb using assms(3) by (simp add: endId_def not_less)
  show ?thesis
    by (simp add: ChunkData_finalize_ranges [OF assms(1,2)] r ChunkData_save_def
        split: sum.splits)
qed

text \<open>
  Claim C7, as amended: for a chunk of either layout, with \<open>chunkPoints > 0\<close> and no
  wrap-around of the identifiers, \<^verbatim>\<open>finalize\<close> returns, and its effect is that of
  writing the prefix blob \<open>[m_id, start)\<close> if \<open>start > m_id\<close> and then one blob per
  slice \<open>[id, id + chunkPoints)\<close> from \<open>max(start, m_id)\<close> up to \<open>endId\<close>, in this
  order, the begin of every range written being appended to \<open>ids\<close>; an error of a write
  is the error of the call.  When \<open>start \<le> m_id\<close> and \<open>chunkPoints\<close> is the chunk's
  \<open>maxPoints\<close>, this is the one blob of \<^verbatim>\<open>save\<close>, over the entire chunk.
\<close>

theorem finalize_writes_slices:
  assumes "0 < chunkPoints"
    and "unat (endId (m_chunkData chunk)) + unat chunkPoints \<le> 2 ^ 64"
  shows "Chunk_finalize env chunk source ids start chunkPoints =
           Some (case write_ranges (ChunkData_write env (m_chunkData chunk))
                        (finalize_ranges (m_chunkData chunk) start chunkPoints) source of
                   Inl err \<Rightarrow> Inl err
                 | Inr source' \<Rightarrow>
                     Inr (source', ids @ map fst (finalize_ranges (m_chunkData chunk) start chunkPoints))) \<and>
         (start \<le> ChunkData_id (m_chunkData chunk) \<and>
          chunkPoints = ChunkData_maxPoints (m_chunkData chunk) \<and>
          unat (ChunkData_id (m_chunkData chunk)) + unat chunkPoints < 2 ^ 64 \<longrightarrow>
          Chunk_finalize env chunk source ids start chunkPoints =
            Some (case ChunkData_save env (m_chunkData chunk) source of
                    Inl err \<Rightarrow> Inl err
                  | Inr source' \<Rightarrow> Inr (source', ids @ [ChunkData_id (m_chunkData chunk)])))"
  using ChunkData_finalize_ranges [OF assms] finalize_as_save [of "m_chunkData chunk"] assms
  by (auto simp: Chunk_finalize_def)

lemma sparse_chunk_end: "endId (m_chunkData sparse_chunk) = 72"
  by (simp add: endId_def sparse_chunk_def sparse_two_def SparseChunkData_getEntry_def
      SparseChunkData_empty_def map_find_def)

lemma sparse_chunk_id: "ChunkData_id (m_chunkData sparse_chunk) = 8"
  by (simp add: sparse_chunk_def sparse_two_def SparseChunkData_getEntry_def
      SparseChunkData_empty_def map_find_def)

lemma sparse_chunk_maxPoints: "ChunkData_maxPoints (m_chunkData sparse_chunk) = 64"
  by (simp add: sparse_chunk_def sparse_two_def SparseChunkData_getEntry_def
      SparseChunkData_empty_def map_find_def)

lemma prefix_ranges: "finalize_ranges (m_chunkData sparse_chunk) 20 64 = [(8, 20), (20, 84)]"
proof -
  have "slice_begins 20 72 64 = [20]"
    by (subst slice_begins.simps, subst slice_begins.simps) simp
  then show ?thesis
    by (simp add: finalize_ranges_def sparse_chunk_id sparse_chunk_end)
qed

theorem finalize_writes_slices_witness:
  "Chunk_finalize raw_env sparse_chunk Map.empty [] 20 64 =
     Some (case write_ranges (ChunkData_write raw_env (m_chunkData sparse_chunk))
                  [(8, 20), (20, 84)] Map.empty of
             Inl err \<Rightarrow> Inl err
           | Inr source' \<Rightarrow> Inr (source', [8, 20])) \<and>
   Chunk_finalize raw_env sparse_chunk Map.empty [] 0 64 =
     Some (case ChunkData_save raw_env (m_chunkData sparse_chunk) Map.empty of
             Inl err \<Rightarrow> Inl err
           | Inr source' \<Rightarrow> Inr (source', [8]))"
proof -
  have a: "(0 :: size_t) < 64" by simp
  have b: "unat (endId (m_chunkData sparse_chunk)) + unat (64 :: size_t) \<le> 2 ^ 64"
    by (simp add: sparse_chunk_end)
  have c: "(0 :: size_t) \<le> ChunkData_id (m_chunkData sparse_chunk) \<and>
           (64 :: size_t) = ChunkData_maxPoints (m_chunkData sparse_chunk) \<and>
           unat (ChunkData_id (m_chunkData sparse_chunk)) + unat (64 :: size_t) < 2 ^ 64"
    by (simp add: sparse_chunk_id sparse_chunk_maxPoints)
  have w1: "Chunk_finalize raw_env sparse_chunk Map.empty [] 20 64 =
     Some (case write_ranges (ChunkData_write raw_env (m_chunkData sparse_chunk))
                  [(8, 20), (20, 84)] Map.empty of
             Inl err \<Rightarrow> Inl err
           | Inr source' \<Rightarrow> Inr (source', [8, 20]))"
    using finalize_writes_slices [OF a b, of raw_env Map.empty "[]" 20, THEN conjunct1]
    by (simp add: prefix_ranges cong: sum.case_cong)
  have w2: "Chunk_finalize raw_env sparse_chunk Map.empty [] 0 64 =
     Some (case ChunkData_save raw_env (m_chunkData sparse_chunk) Map.empty of
             Inl err \<Rightarrow> Inl err
           | Inr source' \<Rightarrow> Inr (source', [8]))"
    using finalize_writes_slices [OF a b, of raw_env Map.empty "[]" 0, THEN conjunct2, rule_format, OF c]
    by (simp add: sparse_chunk_id cong: sum.case_cong)
  show ?thesis using w1 w2 by (rule conjI)
qed

text \<open>
  Claim C7 as stated fails for a sparse chunk whose \<open>maxPoints\<close> exceeds \<open>chunkPoints\<close>:
  finalizing the sparse chunk over \<open>[8, 72)\<close> with \<open>chunkPoints = 16\<close> records four
  identifiers, one per slice written, where the claim has one blob for the entire chunk.
\<close>

theorem sparse_finalize_four_blobs:
  "map_option (map_sum id snd) (Chunk_finalize raw_env sparse_chunk Map.empty [] 0 16)
     = Some (Inr [8, 24, 40, 56])"
  by code_simp

section \<open>The base pass below an empty tube\<close>

text \<open>
  Nodes are paths from the root, ordered lexicographically: the walk of the climber is
  strictly increasing, and leaving a node without descending moves past all nodes below it.
\<close>

lemma append_less_append: "(p @ u < p @ v) = (u < (v :: nat list))"
  by (induction p) simp_all

lemma less_append: "s \<noteq> [] \<Longrightarrow> p < p @ (s :: nat list)"
  by (induction p) (cases s; simp)+

lemma le_append: "p \<le> p @ (s :: nat list)"
  by (induction p) simp_all

lemma next_sibling_above:
  "next_sibling f st = Some st' \<Longrightarrow> rev st @ s < rev st'"
proof (induction st arbitrary: s)
  case Nil
  then show ?case by simp
next
  case (Cons k up)
  show ?case
  proof (cases "k + 1 < f")
    case True
    then have "st' = (k + 1) # up" using Cons.prems by simp
    then show ?thesis by (simp add: append_less_append)
  next
    case False
    then have "next_sibling f up = Some st'" using Cons.prems by simp
    from Cons.IH [OF this, of "k # s"] show ?thesis by simp
  qed
qed

lemma SplitClimber_next_above:
  assumes "SplitClimber_next c t = Some c'"
  shows "SplitClimber_path c < SplitClimber_path c'"
    and "sc_factor c' = sc_factor c"
    and "t \<Longrightarrow> SplitClimber_path c @ s < SplitClimber_path c'"
proof -
  show "sc_factor c' = sc_factor c"
    using assms by (auto simp: SplitClimber_next_def split: if_splits option.splits)
  show "t \<Longrightarrow> SplitClimber_path c @ s < SplitClimber_path c'"
    using assms next_sibling_above [of "sc_factor c" "sc_stack c" _ s]
    by (auto simp: SplitClimber_next_def SplitClimber_path_def split: if_splits option.splits)
  show "SplitClimber_path c < SplitClimber_path c'"
    using assms next_sibling_above [of "sc_factor c" "sc_stack c" _ "[]"]
    by (auto simp: SplitClimber_next_def SplitClimber_path_def less_append
        split: if_splits option.splits)
qed

lemma getBase_loop_visits:
  assumes "getBase_loop fuel env base c q ex vis = (q', vis', out)"
  shows "\<exists>new. vis' = vis @ new \<and> (\<forall>p \<in> set new. SplitClimber_path c \<le> p) \<and>
           pruned (sc_factor c) base new"
  using assms
proof (induction fuel arbitrary: c q ex vis)
  case 0
  then show ?case by (simp add: pruned_def)
next
  case (Suc fuel)
  let ?cur = "SplitClimber_path c"
  let ?tube = "base (SplitClimber_index c)"
  have single: "pruned (sc_factor c) base [?cur]"
    by (simp add: pruned_def)
  have step: "\<exists>new. vis' = vis @ new \<and> (\<forall>p \<in> set new. ?cur \<le> p) \<and> pruned (sc_factor c) base new"
    if nx: "SplitClimber_next c t = Some c'"
      and t: "t = Tube_empty ?tube"
      and rec: "getBase_loop fuel env base c' q1 ex1 (vis @ [?cur]) = (q', vis', out)"
    for t c' q1 ex1
  proof -
    from Suc.IH [OF rec] obtain new where
      v: "vis' = (vis @ [?cur]) @ new"
      and ge: "\<forall>p \<in> set new. SplitClimber_path c' \<le> p"
      and pr: "pruned (sc_factor c') base new"
      by blast
    note above = SplitClimber_next_above [OF nx]
    have lt: "\<forall>p \<in> set new. ?cur < p" using ge above(1) by auto
    have "pruned (sc_factor c) base (?cur # new)"
      unfolding pruned_def
    proof (intro ballI impI allI)
      fix a s assume a: "a \<in> set (?cur # new)"
        and e: "Tube_empty (base (node_index (sc_factor c) a))" and s: "s \<noteq> ([] :: nat list)"
      show "a @ s \<notin> set (?cur # new)"
      proof (cases "a = ?cur")
        case True
        then have "t" using e t by (simp add: SplitClimber_index_def)
        then have "?cur @ s < SplitClimber_path c'" by (rule above(3))
        then have "\<forall>p \<in> set new. ?cur @ s < p" using ge by auto
        then have "?cur @ s \<notin> set new" by auto
        then show ?thesis using True s by simp
      next
        case False
        then have an: "a \<in> set new" using a by simp
        then have "a @ s \<notin> set new"
          using pr e s by (simp add: pruned_def above(2))
        moreover have "?cur < a" using lt an by simp
        then have "?cur < a @ s" using le_append [of a s] by simp
        then have "a @ s \<noteq> ?cur" by simp
        ultimately show ?thesis by simp
      qed
    qed
    then show ?thesis using v lt by (intro exI [of _ "?cur # new"]) auto
  qed
  show ?case
  proof (cases "Tube_empty ?tube")
    case True
    show ?thesis
    proof (cases "SplitClimber_next c True")
      case None
      then have "vis' = vis @ [?cur]" using Suc.prems True by (simp add: Let_def)
      then show ?thesis using single by (intro exI [of _ "[?cur]"]) simp
    next
      case (Some c')
      then have "getBase_loop fuel env base c' q ex (vis @ [?cur]) = (q', vis', out)"
        using Suc.prems True by (simp add: Let_def)
      from step [OF Some _ this] True show ?thesis by simp
    qed
  next
    case False
    obtain q1 r where pe: "process_each env q ex
        (the (primaryCell ?tube) # map snd (secondaryCells ?tube)) = (q1, r)"
      by (cases "process_each env q ex (the (primaryCell ?tube) # map snd (secondaryCells ?tube))")
    show ?thesis
    proof (cases r)
      case (Inl e)
      then have "vis' = vis @ [?cur]" using Suc.prems False pe by (simp add: Let_def)
      then show ?thesis using single by (intro exI [of _ "[?cur]"]) simp
    next
      case (Inr existed)
      show ?thesis
      proof (cases "SplitClimber_next c False")
        case None
        then have "vis' = vis @ [?cur]" using Suc.prems False pe Inr by (simp add: Let_def)
        then show ?thesis using single by (intro exI [of _ "[?cur]"]) simp
      next
        case (Some c')
        then have "getBase_loop fuel env base c' q1 existed (vis @ [?cur]) = (q', vis', out)"
          using Suc.prems False pe Inr by (simp add: Let_def)
        from step [OF Some _ this] False show ?thesis by simp
      qed
    qed
  qed
qed

text \<open>
  Claim C10: in the base pass of a query, a node strictly below a node whose tube was
  found empty is never visited, whether or not it holds a point inside the query bounds
  and the depth band; points reach \<^verbatim>\<open>processPoint\<close> only from the tube fetched for the
  current node.  This holds of every prefix of the walk (every amount of fuel).
\<close>

theorem empty_tube_prunes_descent:
  assumes "getBase fuel env q = (q', visited, outcome)"
    and "qe_base env = Some base"
    and "a \<in> set visited"
    and "Tube_empty (base (node_index (factor (qe_structure env)) a))"
    and "s \<noteq> []"
  shows "a @ s \<notin> set visited"
proof (cases "visited = []")
  case True
  then show ?thesis using assms(3) by simp
next
  case False
  let ?c = "SplitClimber_new env (m_qbox q) (m_depthBegin q)
              (min (m_depthEnd q) (baseDepthEnd (qe_structure env)))"
  from False assms(1,2) have "getBase_loop fuel env base ?c q False [] = (q', visited, outcome)"
    by (auto simp: getBase_def Let_def split: if_splits)
  from getBase_loop_visits [OF this] have "pruned (sc_factor ?c) base visited" by auto
  then show ?thesis using assms(3,4,5)
    by (simp add: pruned_def SplitClimber_new_def)
qed

lemma plain_base_pass:
  "getBase 10 plain_query_env (fresh_query\<lparr>m_buffer := Some []\<rparr>) =
     (fresh_query\<lparr>m_numPoints := 2, m_buffer := Some [7, 9]\<rparr>,
      [[], [0], [1], [1, 0], [1, 1]], Some (Inr True))"
  by code_simp

theorem empty_tube_prunes_descent_witness:
  "getBase 10 plain_query_env (fresh_query\<lparr>m_buffer := Some []\<rparr>) =
     (fresh_query\<lparr>m_numPoints := 2, m_buffer := Some [7, 9]\<rparr>,
      [[], [0], [1], [1, 0], [1, 1]], Some (Inr True)) \<and>
   Tube_empty (plain_base (node_index 2 [0])) \<and>
   primaryCell (plain_base (node_index 2 [0, 0]))
     = Some \<lparr>pi_point = 11, pi_data = [11], pi_tick = 11\<rparr> \<and>
   qe_contains plain_query_env (m_qbox fresh_query) 11 \<and>
   [0] @ [0] \<notin> set [[], [0], [1], [1, 0], [1, 1 :: nat]]"
proof -
  have b: "qe_base plain_query_env = Some plain_base"
    by (simp add: plain_query_env_def)
  have m: "[0] \<in> set [[], [0], [1], [1, 0], [1, 1 :: nat]]" by simp
  have e: "Tube_empty (plain_base (node_index (factor (qe_structure plain_query_env)) [0]))"
    by (simp add: plain_query_env_def Tube_empty_def plain_base_def node_index_def)
  have s: "[0 :: nat] \<noteq> []" by simp
  have e': "Tube_empty (plain_base (node_index 2 [0]))"
    using e by (simp add: plain_query_env_def)
  have p: "primaryCell (plain_base (node_index 2 [0, 0]))
             = Some \<lparr>pi_point = 11, pi_data = [11], pi_tick = 11\<rparr>"
    by (simp add: plain_base_def node_index_def)
  have c: "qe_contains plain_query_env (m_qbox fresh_query) 11"
    by (simp add: plain_query_env_def fresh_query_def)
  show ?thesis
    using empty_tube_prunes_descent [OF plain_base_pass b m e s] plain_base_pass e' p c
    by simp
qed

end
